theory Spec2Isabelle
  imports Main "HOL-Library.AList"
begin

section \<open>Time\<close>

text \<open>
  A datetime is modelled as the instant it denotes, in seconds since the epoch; a calendar
  date is a day number. The project's settings module is not part of the sources, so the
  offset of the configured local zone (\<open>LOCAL_TZ\<close>) is a parameter \<open>tz\<close>, in seconds,
  of everything that derives a local date. \<open>now\<close> is the reading of the clock
  (\<open>localtime()\<close>, \<open>timezone.now()\<close>) at the call.
\<close>

type_synonym instant = int
type_synonym date = int

definition PAST_MARGIN :: int where
  "PAST_MARGIN = 60"

definition local_date :: "int \<Rightarrow> instant \<Rightarrow> date" where
  "local_date tz t = (t + tz) div 86400"

text \<open>
  A datetime read back from the store is aware in UTC, so \<open>.date()\<close> on it is the UTC
  date (\<open>call_next_api\<close> compares it with the local \<open>today\<close>).
\<close>

definition utc_date :: "instant \<Rightarrow> date" where
  "utc_date t = t div 86400"

text \<open>
  \<open>_to_local_aware\<close>: \<open>None\<close> stays \<open>None\<close>; any other datetime is re-expressed in the
  local zone, which does not change the instant.
\<close>

definition to_local_aware :: "instant option \<Rightarrow> instant option" where
  "to_local_aware dt = (case dt of None \<Rightarrow> None | Some t \<Rightarrow> Some t)"

section \<open>Strings\<close>

text \<open>Python's \<open>str.strip()\<close> and the f-string rendering of an optional string.\<close>

definition py_isspace :: "char \<Rightarrow> bool" where
  "py_isspace c = (c \<in> set [CHR 0x09, CHR 0x0A, CHR 0x0B, CHR 0x0C, CHR 0x0D,
                            CHR 0x1C, CHR 0x1D, CHR 0x1E, CHR 0x1F, CHR 0x20,
                            CHR 0x85, CHR 0xA0])"

definition py_strip :: "string \<Rightarrow> string" where
  "py_strip s = rev (dropWhile py_isspace (rev (dropWhile py_isspace s)))"

definition py_format :: "string option \<Rightarrow> string" where
  "py_format v = (case v of None \<Rightarrow> ''None'' | Some s \<Rightarrow> s)"

section \<open>Data model (appointments/models.py)\<close>

datatype AppointmentStatus = PENDING | COMPLETED | CANCELLED

datatype BookingRequestStatus = BR_PENDING | BR_CONFIRMED | BR_REJECTED

record appointment =
  pk :: "nat option"
  patient_id :: nat
  doctor_id :: nat
  scheduled_time :: "instant option"
  scheduled_day :: "date option"
  queue_number :: "nat option"
  iqd_amount :: "int option"
  appt_notes :: "string option"
  status :: AppointmentStatus
  created_at :: "instant option"

record booking_request =
  br_pk :: "nat option"
  full_name :: string
  date_of_birth :: "date option"
  contact_info :: string
  br_doctor_id :: "nat option"
  br_scheduled_time :: "instant option"
  submitted_at :: "instant option"
  br_status :: BookingRequestStatus

record notification =
  title :: string
  related_booking_request :: "nat option"

text \<open>
  The relational store: the tables the scheduling code reads and writes, and the
  sequences that hand out primary keys.
\<close>

record database =
  doctors :: "nat list"
  patients :: "nat list"
  appointments :: "appointment list"
  appointment_seq :: nat
  booking_requests :: "booking_request list"
  booking_request_seq :: nat
  notifications :: "notification list"

section \<open>Errors\<close>

datatype message = PastTimeError | SlotTakenError | FieldError

type_synonym error_dict = "(string \<times> message) list"

datatype failure =
    ValidationError error_dict
  | DoesNotExist
  | IntegrityError
  | DatabaseError
  | Http404

section \<open>Appointment: validation\<close>

text \<open>
  The largest value a \<open>PositiveIntegerField\<close> accepts: the range validator the
  framework attaches to the field for the store in use (PostgreSQL, as the backup script
  shows).
\<close>

definition POSITIVE_INTEGER_MAX :: nat where
  "POSITIVE_INTEGER_MAX = 2147483647"

text \<open>
  Field validation as declared on the model's fields, in the order of the fields: both
  foreign keys resolve; a queue number, when present, is within the range of its field;
  and the amount is present, non-negative (\<open>MinValueValidator(0)\<close>) and of at most 15
  digits.
\<close>

definition clean_fields :: "database \<Rightarrow> appointment \<Rightarrow> error_dict" where
  "clean_fields d a =
     (if patient_id a \<in> set (patients d) then [] else [(''patient'', FieldError)]) @
     (if doctor_id a \<in> set (doctors d) then [] else [(''doctor'', FieldError)]) @
     (case queue_number a of
        None \<Rightarrow> []
      | Some n \<Rightarrow> if n \<le> POSITIVE_INTEGER_MAX then [] else [(''queue_number'', FieldError)]) @
     (case iqd_amount a of
        None \<Rightarrow> [(''iqd_amount'', FieldError)]
      | Some v \<Rightarrow> if 0 \<le> v \<and> v < 10 ^ 15 then [] else [(''iqd_amount'', FieldError)])"

text \<open>\<open>Appointment.clean\<close>: the empty dictionary stands for a normal return.\<close>

definition Appointment_clean :: "instant \<Rightarrow> database \<Rightarrow> appointment \<Rightarrow> error_dict" where
  "Appointment_clean now d self =
     (case to_local_aware (scheduled_time self) of
        None \<Rightarrow> []
      | Some aware \<Rightarrow>
          if aware < now - PAST_MARGIN then [(''scheduled_time'', PastTimeError)]
          else if (\<exists>r \<in> set (appointments d).
                     pk r \<noteq> pk self \<and> doctor_id r = doctor_id self \<and>
                     scheduled_time r = Some aware \<and> status r \<noteq> CANCELLED)
          then [(''scheduled_time'', SlotTakenError)]
          else [])"

text \<open>
  \<open>full_clean\<close>: the fields are validated, then \<open>clean\<close> runs, and the two error
  dictionaries are merged; an empty result stands for a normal return. The unique
  constraints are modelled where the row is written (below): a violation aborts \<open>save\<close>
  there, whether or not the framework also reports it during validation.
\<close>

definition full_clean :: "instant \<Rightarrow> database \<Rightarrow> appointment \<Rightarrow> error_dict" where
  "full_clean now d self = clean_fields d self @ Appointment_clean now d self"

section \<open>Appointment: storage\<close>

text \<open>
  The two conditional unique constraints of \<open>Appointment.Meta\<close>, as the store checks
  them for the row being written against every other row.
\<close>

definition uq_doctor_time_not_cancelled :: "appointment \<Rightarrow> appointment \<Rightarrow> bool" where
  "uq_doctor_time_not_cancelled a r =
     (scheduled_time a \<noteq> None \<and> status a \<noteq> CANCELLED \<and>
      scheduled_time r \<noteq> None \<and> status r \<noteq> CANCELLED \<and>
      doctor_id r = doctor_id a \<and> scheduled_time r = scheduled_time a)"

definition uq_doctor_day_queue_active :: "appointment \<Rightarrow> appointment \<Rightarrow> bool" where
  "uq_doctor_day_queue_active a r =
     (scheduled_day a \<noteq> None \<and> queue_number a \<noteq> None \<and> status a \<noteq> CANCELLED \<and>
      scheduled_day r \<noteq> None \<and> queue_number r \<noteq> None \<and> status r \<noteq> CANCELLED \<and>
      doctor_id r = doctor_id a \<and> scheduled_day r = scheduled_day a \<and>
      queue_number r = queue_number a)"

definition violates_constraints :: "appointment list \<Rightarrow> appointment \<Rightarrow> bool" where
  "violates_constraints rows a =
     (\<exists>r \<in> set rows. pk r \<noteq> pk a \<and>
        (uq_doctor_time_not_cancelled a r \<or> uq_doctor_day_queue_active a r))"

definition get_object :: "database \<Rightarrow> nat \<Rightarrow> appointment option" where
  "get_object d k = find (\<lambda>r. pk r = Some k) (appointments d)"

text \<open>
  INSERT: a row without a key takes the next value of the sequence; \<open>created_at\<close> is
  \<open>auto_now_add\<close>. The sequence is advanced only by an insert that succeeds. Keys are
  natural numbers without a bound: whether the key column is 32 or 64 bits wide is a
  setting outside the sources.
\<close>

definition db_insert :: "instant \<Rightarrow> database \<Rightarrow> appointment \<Rightarrow> failure + (database \<times> appointment)" where
  "db_insert now d a =
     (let k = (case pk a of None \<Rightarrow> appointment_seq d | Some k' \<Rightarrow> k');
          a' = a\<lparr>pk := Some k, created_at := Some now\<rparr>
      in if (\<exists>r \<in> set (appointments d). pk r = Some k) \<or> violates_constraints (appointments d) a'
         then Inl IntegrityError
         else Inr (d\<lparr>appointments := appointments d @ [a'],
                     appointment_seq := (case pk a of None \<Rightarrow> Suc (appointment_seq d)
                                         | Some k' \<Rightarrow> appointment_seq d)\<rparr>, a'))"

text \<open>UPDATE of the row with key \<open>k\<close> to the new contents \<open>a'\<close>.\<close>

definition db_update :: "database \<Rightarrow> nat \<Rightarrow> appointment \<Rightarrow> failure + database" where
  "db_update d k a' =
     (if violates_constraints (appointments d) a' then Inl IntegrityError
      else Inr (d\<lparr>appointments := map (\<lambda>r. if pk r = Some k then a' else r) (appointments d)\<rparr>))"

definition copy_column :: "string \<Rightarrow> appointment \<Rightarrow> appointment \<Rightarrow> appointment" where
  "copy_column f src dst =
     (if f = ''patient'' then dst\<lparr>patient_id := patient_id src\<rparr>
      else if f = ''doctor'' then dst\<lparr>doctor_id := doctor_id src\<rparr>
      else if f = ''scheduled_time'' then dst\<lparr>scheduled_time := scheduled_time src\<rparr>
      else if f = ''scheduled_day'' then dst\<lparr>scheduled_day := scheduled_day src\<rparr>
      else if f = ''queue_number'' then dst\<lparr>queue_number := queue_number src\<rparr>
      else if f = ''iqd_amount'' then dst\<lparr>iqd_amount := iqd_amount src\<rparr>
      else if f = ''notes'' then dst\<lparr>appt_notes := appt_notes src\<rparr>
      else if f = ''status'' then dst\<lparr>status := status src\<rparr>
      else dst)"

text \<open>
  \<open>models.Model.save\<close>: an instance without a key is inserted; one with a key updates
  its row (only the columns of \<open>update_fields\<close> when given), or is inserted when no such
  row exists.
\<close>

definition Model_save ::
  "instant \<Rightarrow> database \<Rightarrow> appointment \<Rightarrow> string list option \<Rightarrow> failure + (database \<times> appointment)" where
  "Model_save now d self update_fields =
     (case pk self of
        None \<Rightarrow> db_insert now d self
      | Some k \<Rightarrow>
          (case get_object d k of
             None \<Rightarrow> (case update_fields of
                        None \<Rightarrow> db_insert now d self
                      | Some fs \<Rightarrow> Inl DatabaseError)
           | Some r \<Rightarrow>
               (let r' = (case update_fields of
                            None \<Rightarrow> self
                          | Some fs \<Rightarrow> fold (\<lambda>f. copy_column f self) fs r)
                in case db_update d k r' of
                     Inl e \<Rightarrow> Inl e
                   | Inr d' \<Rightarrow> Inr (d', self))))"

text \<open>SQL \<open>MAX\<close> over a nullable column: nulls are skipped, no value gives null.\<close>

fun aggregate_Max :: "nat option list \<Rightarrow> nat option" where
  "aggregate_Max [] = None"
| "aggregate_Max (None # xs) = aggregate_Max xs"
| "aggregate_Max (Some n # xs) =
     (case aggregate_Max xs of None \<Rightarrow> Some n | Some m \<Rightarrow> Some (max n m))"

text \<open>\<open>Appointment.save\<close>.\<close>

definition save ::
  "int \<Rightarrow> instant \<Rightarrow> database \<Rightarrow> appointment \<Rightarrow> string list option \<Rightarrow> failure + (database \<times> appointment)" where
  "save tz now d self0 update_fields =
     (let st = to_local_aware (scheduled_time self0);
          self1 = self0\<lparr>scheduled_time := st, scheduled_day := map_option (local_date tz) st\<rparr>;
          self2 = (if iqd_amount self1 = None then self1\<lparr>iqd_amount := Some 0\<rparr> else self1);
          creating = (pk self2 = None)
      in if \<not> creating then
           (case full_clean now d self2 of
              [] \<Rightarrow> Model_save now d self2 update_fields
            | e # es \<Rightarrow> Inl (ValidationError (e # es)))
         else if scheduled_time self2 = None then
           (case full_clean now d self2 of
              [] \<Rightarrow> Model_save now d self2 update_fields
            | e # es \<Rightarrow> Inl (ValidationError (e # es)))
         else if doctor_id self2 \<notin> set (doctors d) then Inl DoesNotExist
         else
           (let qs = filter (\<lambda>r. doctor_id r = doctor_id self2 \<and>
                                  scheduled_day r = scheduled_day self2 \<and>
                                  status r \<noteq> CANCELLED) (appointments d);
                last = (case aggregate_Max (map queue_number qs) of None \<Rightarrow> 0 | Some mx \<Rightarrow> mx);
                self3 = self2\<lparr>queue_number := Some (last + 1)\<rparr>
            in case full_clean now d self3 of
                 [] \<Rightarrow> Model_save now d self3 update_fields
               | e # es \<Rightarrow> Inl (ValidationError (e # es))))"

section \<open>Views (appointments/views.py)\<close>

datatype http_method = GET | POST

datatype cancel_outcome = CancelRefusedCompleted | CancelDone | CancelConfirmationPage

text \<open>
  \<open>cancel_appointment\<close>. \<open>post_reason\<close> is the posted \<open>reason\<close> (empty when absent),
  \<open>stamp\<close> the formatted local time and \<open>user_display\<close> the name of the user. The
  queryset \<open>update\<close> writes the columns directly; it only moves the row out of the scope
  of both unique constraints.
\<close>

definition cancel_appointment ::
  "http_method \<Rightarrow> string \<Rightarrow> string \<Rightarrow> string \<Rightarrow> database \<Rightarrow> nat \<Rightarrow> failure + (cancel_outcome \<times> database)" where
  "cancel_appointment method post_reason stamp user_display d k =
     (case get_object d k of
        None \<Rightarrow> Inl Http404
      | Some appt \<Rightarrow>
          if status appt = COMPLETED then Inr (CancelRefusedCompleted, d)
          else if method = POST then
            (let reason = py_strip post_reason;
                 note_line = ''[Cancelled '' @ stamp @ '' by '' @ user_display @ ''] '' @ reason;
                 new_notes = py_strip (py_format (appt_notes appt) @ [CHR 0x0A] @ note_line);
                 upd = (\<lambda>r. if reason \<noteq> []
                             then r\<lparr>status := CANCELLED, appt_notes := Some new_notes\<rparr>
                             else r\<lparr>status := CANCELLED\<rparr>)
             in Inr (CancelDone,
                     d\<lparr>appointments := map (\<lambda>r. if pk r = Some k then upd r else r) (appointments d)\<rparr>))
          else Inr (CancelConfirmationPage, d))"

text \<open>\<open>delete_appointment\<close> by an administrator (POST).\<close>

definition delete_appointment :: "database \<Rightarrow> nat \<Rightarrow> failure + database" where
  "delete_appointment d k =
     (case get_object d k of
        None \<Rightarrow> Inl Http404
      | Some appt \<Rightarrow> Inr (d\<lparr>appointments := filter (\<lambda>r. pk r \<noteq> Some k) (appointments d)\<rparr>))"

datatype confirm_outcome = ConfirmRefusedCancelled | Confirmed

text \<open>\<open>confirm_appointment\<close>: refused for a cancelled appointment, else the status is set to PENDING.\<close>

definition confirm_appointment ::
  "int \<Rightarrow> instant \<Rightarrow> database \<Rightarrow> nat \<Rightarrow> failure + (confirm_outcome \<times> database)" where
  "confirm_appointment tz now d k =
     (case get_object d k of
        None \<Rightarrow> Inl Http404
      | Some appt \<Rightarrow>
          if status appt = CANCELLED then Inr (ConfirmRefusedCancelled, d)
          else (case save tz now d (appt\<lparr>status := PENDING\<rparr>) (Some [''status'']) of
                  Inl e \<Rightarrow> Inl e
                | Inr (d', a') \<Rightarrow> Inr (Confirmed, d')))"

text \<open>\<open>order_by("scheduled_time")\<close> and \<open>.first()\<close>.\<close>

definition order_by_scheduled_time :: "appointment list \<Rightarrow> appointment list" where
  "order_by_scheduled_time rows =
     sort_key (\<lambda>r. case scheduled_time r of None \<Rightarrow> 0 | Some t \<Rightarrow> t) rows"

definition first :: "'a list \<Rightarrow> 'a option" where
  "first xs = (case xs of [] \<Rightarrow> None | x # rest \<Rightarrow> Some x)"

datatype call_next_outcome = NoPendingAppointments | Updated appointment

text \<open>
  \<open>call_next_api\<close>. \<open>appt_id\<close> is the posted \<open>appointment_id\<close>, \<open>None\<close> when it is
  absent or empty (a posted id is taken to be a number). The answer
  "No pending appointments." (status 404) is the spec's \<open>QueueEmpty\<close>. The row is
  completed through \<open>save(update_fields=["status"])\<close>, which validates it like any
  other update.
\<close>

definition base_qs :: "int \<Rightarrow> instant \<Rightarrow> database \<Rightarrow> nat \<Rightarrow> appointment list" where
  "base_qs tz now d doctor =
     order_by_scheduled_time
       (filter (\<lambda>r. doctor_id r = doctor \<and> status r = PENDING \<and>
                    map_option (local_date tz) (scheduled_time r) = Some (local_date tz now))
               (appointments d))"

definition call_next_api ::
  "int \<Rightarrow> instant \<Rightarrow> database \<Rightarrow> nat \<Rightarrow> nat option \<Rightarrow> failure + (call_next_outcome \<times> database)" where
  "call_next_api tz now d doctor appt_id =
     (let today = local_date tz now;
          nxt = (case appt_id of
                   Some k \<Rightarrow>
                     (case first (filter (\<lambda>r. pk r = Some k \<and> doctor_id r = doctor) (appointments d)) of
                        None \<Rightarrow> first (base_qs tz now d doctor)
                      | Some n \<Rightarrow>
                          if status n \<noteq> PENDING \<or>
                             (case scheduled_time n of None \<Rightarrow> False | Some t \<Rightarrow> utc_date t \<noteq> today)
                          then first (base_qs tz now d doctor)
                          else Some n)
                 | None \<Rightarrow> first (base_qs tz now d doctor))
      in case nxt of
           None \<Rightarrow> Inr (NoPendingAppointments, d)
         | Some n \<Rightarrow>
             (case save tz now d (n\<lparr>status := COMPLETED\<rparr>) (Some [''status'']) of
                Inl e \<Rightarrow> Inl e
              | Inr (d', n') \<Rightarrow> Inr (Updated n', d')))"

section \<open>Admin actions (appointments/admin.py)\<close>

text \<open>
  \<open>mark_cancelled\<close>: the bulk action writes the status of the selected rows with a
  queryset \<open>update\<close>, whatever their status is. \<open>selected\<close> are the keys ticked in the
  change list.
\<close>

definition mark_cancelled :: "database \<Rightarrow> nat list \<Rightarrow> database" where
  "mark_cancelled d selected =
     d\<lparr>appointments :=
         map (\<lambda>r. if pk r \<in> set (map Some selected) then r\<lparr>status := CANCELLED\<rparr> else r)
             (appointments d)\<rparr>"

section \<open>Booking requests (appointments/models.py)\<close>

definition br_clean_fields :: "database \<Rightarrow> booking_request \<Rightarrow> error_dict" where
  "br_clean_fields d b =
     (if full_name b \<noteq> [] \<and> length (full_name b) \<le> 100 then [] else [(''full_name'', FieldError)]) @
     (if contact_info b \<noteq> [] \<and> length (contact_info b) \<le> 200 then [] else [(''contact_info'', FieldError)]) @
     (case br_doctor_id b of
        None \<Rightarrow> [(''doctor'', FieldError)]
      | Some k \<Rightarrow> if k \<in> set (doctors d) then [] else [(''doctor'', FieldError)]) @
     (if br_scheduled_time b = None then [(''scheduled_time'', FieldError)] else [])"

text \<open>
  \<open>PatientBookingRequest.clean\<close>: both checks store their message under the key
  \<open>scheduled_time\<close> of one dictionary, which is raised when it is not empty.
\<close>

definition PatientBookingRequest_clean :: "instant \<Rightarrow> database \<Rightarrow> booking_request \<Rightarrow> error_dict" where
  "PatientBookingRequest_clean now d self =
     (let errors0 = [];
          errors1 = (case to_local_aware (br_scheduled_time self) of
                       None \<Rightarrow> errors0
                     | Some aware \<Rightarrow>
                         if aware < now - PAST_MARGIN
                         then AList.update ''scheduled_time'' PastTimeError errors0
                         else errors0);
          errors2 = (case (br_doctor_id self, to_local_aware (br_scheduled_time self)) of
                       (Some doc, Some aware) \<Rightarrow>
                         if doc \<noteq> 0 \<and>
                            (\<exists>r \<in> set (appointments d).
                               doctor_id r = doc \<and> scheduled_time r = Some aware \<and>
                               status r \<noteq> CANCELLED)
                         then AList.update ''scheduled_time'' SlotTakenError errors1
                         else errors1
                     | _ \<Rightarrow> errors1)
      in errors2)"

definition br_full_clean :: "instant \<Rightarrow> database \<Rightarrow> booking_request \<Rightarrow> error_dict" where
  "br_full_clean now d self = br_clean_fields d self @ PatientBookingRequest_clean now d self"

text \<open>
  \<open>PatientBookingRequest.save\<close>: validation, the write, then a notification when the
  row is new.
\<close>

definition PatientBookingRequest_save ::
  "instant \<Rightarrow> database \<Rightarrow> booking_request \<Rightarrow> failure + (database \<times> booking_request)" where
  "PatientBookingRequest_save now d self0 =
     (let creating = (br_pk self0 = None);
          self1 = self0\<lparr>br_scheduled_time := to_local_aware (br_scheduled_time self0)\<rparr>
      in case br_full_clean now d self1 of
           e # es \<Rightarrow> Inl (ValidationError (e # es))
         | [] \<Rightarrow>
             (case br_pk self1 of
                None \<Rightarrow>
                  (let k = booking_request_seq d;
                       self2 = self1\<lparr>br_pk := Some k, submitted_at := Some now\<rparr>
                   in if (\<exists>r \<in> set (booking_requests d). br_pk r = Some k) then Inl IntegrityError
                      else Inr (d\<lparr>booking_requests := booking_requests d @ [self2],
                                  booking_request_seq := Suc k,
                                  notifications := notifications d @
                                    [\<lparr>title = ''New Patient Booking'',
                                      related_booking_request = Some k\<rparr>]\<rparr>, self2))
              | Some k \<Rightarrow>
                  (if (\<exists>r \<in> set (booking_requests d). br_pk r = Some k)
                   then Inr (d\<lparr>booking_requests :=
                                  map (\<lambda>r. if br_pk r = Some k then self1 else r) (booking_requests d)\<rparr>,
                             self1)
                   else Inr (d\<lparr>booking_requests :=
                                  booking_requests d @ [self1\<lparr>submitted_at := Some now\<rparr>]\<rparr>,
                             self1\<lparr>submitted_at := Some now\<rparr>))))"

section \<open>Forms (appointments/forms.py)\<close>

datatype form_error = TimeInPast | OneMinuteGapRequired | TimeAlreadyAllocated

text \<open>\<open>clean_scheduled_time\<close>, the same in both forms but for the message.\<close>

definition clean_scheduled_time :: "instant \<Rightarrow> instant option \<Rightarrow> form_error + instant option" where
  "clean_scheduled_time now dt =
     (case to_local_aware dt of
        None \<Rightarrow> Inr None
      | Some aware \<Rightarrow> if aware < now - PAST_MARGIN then Inl TimeInPast else Inr (Some aware))"

record cleaned_data =
  cd_doctor :: "nat option"
  cd_scheduled_time :: "instant option"
  cd_iqd_amount :: "int option"

text \<open>
  \<open>AppointmentForm.clean\<close>, on the cleaned data of the fields; \<open>instance_pk\<close> is the key
  of the appointment being edited, \<open>None\<close> for a new one.
\<close>

definition AppointmentForm_clean ::
  "database \<Rightarrow> nat option \<Rightarrow> cleaned_data \<Rightarrow> form_error + cleaned_data" where
  "AppointmentForm_clean d instance_pk cleaned =
     (case (cd_doctor cleaned, to_local_aware (cd_scheduled_time cleaned)) of
        (Some doctor, Some t) \<Rightarrow>
          (let window_start = t - 60;
               window_end = t + 60;
               overlapping =
                 (\<exists>r \<in> set (appointments d).
                    doctor_id r = doctor \<and>
                    (case scheduled_time r of
                       None \<Rightarrow> False
                     | Some s \<Rightarrow> window_start \<le> s \<and> s \<le> window_end) \<and>
                    pk r \<noteq> instance_pk)
           in if overlapping then Inl OneMinuteGapRequired
              else Inr (if cd_iqd_amount cleaned = None then cleaned\<lparr>cd_iqd_amount := Some 0\<rparr>
                        else cleaned))
      | _ \<Rightarrow> Inr (if cd_iqd_amount cleaned = None then cleaned\<lparr>cd_iqd_amount := Some 0\<rparr>
                  else cleaned))"

text \<open>\<open>PatientBookingForm.clean\<close>.\<close>

definition PatientBookingForm_clean :: "database \<Rightarrow> cleaned_data \<Rightarrow> form_error + cleaned_data" where
  "PatientBookingForm_clean d cleaned =
     (case (cd_doctor cleaned, to_local_aware (cd_scheduled_time cleaned)) of
        (Some doctor, Some t) \<Rightarrow>
          if (\<exists>r \<in> set (appointments d). doctor_id r = doctor \<and> scheduled_time r = Some t)
          then Inl TimeAlreadyAllocated
          else Inr cleaned
      | _ \<Rightarrow> Inr cleaned)"

section \<open>Notions the properties are stated with\<close>

text \<open>
  \<open>Appointment(patient=..., doctor=..., scheduled_time=...)\<close>: a new instance with the
  defaults the fields declare.
\<close>

definition Appointment :: "nat \<Rightarrow> nat \<Rightarrow> instant option \<Rightarrow> appointment" where
  "Appointment patient doctor t =
     \<lparr>pk = None, patient_id = patient, doctor_id = doctor, scheduled_time = t,
      scheduled_day = None, queue_number = None, iqd_amount = Some 0, appt_notes = None,
      status = PENDING, created_at = None\<rparr>"

fun non_null :: "'a option list \<Rightarrow> 'a list" where
  "non_null [] = []"
| "non_null (None # xs) = non_null xs"
| "non_null (Some x # xs) = x # non_null xs"

text \<open>
  The queue numbers held by the active (not cancelled) appointments of a doctor on a
  day, in table order.
\<close>

definition active_queue_numbers :: "database \<Rightarrow> nat \<Rightarrow> date \<Rightarrow> nat list" where
  "active_queue_numbers d doctor day =
     non_null (map queue_number
       (filter (\<lambda>r. doctor_id r = doctor \<and> scheduled_day r = Some day \<and> status r \<noteq> CANCELLED)
               (appointments d)))"

text \<open>The same over every appointment of the partition, cancelled ones included.\<close>

definition all_queue_numbers :: "database \<Rightarrow> nat \<Rightarrow> date \<Rightarrow> nat list" where
  "all_queue_numbers d doctor day =
     non_null (map queue_number
       (filter (\<lambda>r. doctor_id r = doctor \<and> scheduled_day r = Some day) (appointments d)))"

text \<open>
  The states the program reaches from an empty appointment table by its operations:
  creating and editing through \<open>save\<close>, cancelling, confirming, calling the next
  patient (which completes an appointment) and deleting.
\<close>

inductive reachable :: "int \<Rightarrow> database \<Rightarrow> bool" for tz :: int where
  reachable_init: "appointments d = [] \<Longrightarrow> reachable tz d"
| reachable_create:
    "reachable tz d \<Longrightarrow> pk self = None \<Longrightarrow> save tz now d self None = Inr (d', self')
       \<Longrightarrow> reachable tz d'"
| reachable_edit:
    "reachable tz d \<Longrightarrow> get_object d k = Some r \<Longrightarrow> pk self = Some k
       \<Longrightarrow> save tz now d self None = Inr (d', self') \<Longrightarrow> reachable tz d'"
| reachable_cancel:
    "reachable tz d \<Longrightarrow> cancel_appointment method post_reason stamp user_display d k = Inr (out, d')
       \<Longrightarrow> reachable tz d'"
| reachable_confirm:
    "reachable tz d \<Longrightarrow> confirm_appointment tz now d k = Inr (cout, d') \<Longrightarrow> reachable tz d'"
| reachable_call_next:
    "reachable tz d \<Longrightarrow> call_next_api tz now d doctor appt_id = Inr (nout, d') \<Longrightarrow> reachable tz d'"
| reachable_delete:
    "reachable tz d \<Longrightarrow> delete_appointment d k = Inr d' \<Longrightarrow> reachable tz d'"

text \<open>
  What the store guarantees of the appointment table: keys are unique and were issued by
  the sequence, and no two rows are in conflict under either unique constraint.
\<close>

definition constraints_hold :: "appointment list \<Rightarrow> bool" where
  "constraints_hold rows =
     (distinct (map pk rows) \<and>
      \<not> (\<exists>r \<in> set rows. \<exists>r' \<in> set rows. pk r \<noteq> pk r' \<and>
            (uq_doctor_time_not_cancelled r r' \<or> uq_doctor_day_queue_active r r')))"

definition keys_issued :: "database \<Rightarrow> bool" where
  "keys_issued d =
     (\<not> (\<exists>r \<in> set (appointments d). case pk r of None \<Rightarrow> True | Some k \<Rightarrow> appointment_seq d \<le> k))"

section \<open>Example data\<close>

text \<open>
  A clinic with doctors 1 and 2 and patients 1 and 2, and no appointment yet. In the
  examples the local zone is UTC, day 10 starts at instant 864000, and 09:00, 09:30 and
  10:00 of that day are the instants 896400, 898200 and 900000.
\<close>

definition clinic :: database where
  "clinic = \<lparr>doctors = [1, 2], patients = [1, 2], appointments = [], appointment_seq = 1,
             booking_requests = [], booking_request_seq = 1, notifications = []\<rparr>"

text \<open>An appointment row as stored.\<close>

definition stored ::
  "nat \<Rightarrow> nat \<Rightarrow> instant option \<Rightarrow> nat option \<Rightarrow> AppointmentStatus \<Rightarrow> appointment" where
  "stored k doctor t qn st =
     \<lparr>pk = Some k, patient_id = 1, doctor_id = doctor, scheduled_time = t,
      scheduled_day = map_option (local_date 0) t, queue_number = qn, iqd_amount = Some 0,
      appt_notes = None, status = st, created_at = Some 0\<rparr>"

text \<open>
  Day 10 with three appointments: doctor 1 at 09:00 (number 1, pending) and at 09:30
  (number 2, cancelled), doctor 2 at 09:00 (number 1, pending).
\<close>

definition day10 :: database where
  "day10 = clinic\<lparr>appointments :=
             [stored 1 1 (Some 896400) (Some 1) PENDING,
              stored 2 1 (Some 898200) (Some 2) CANCELLED,
              stored 3 2 (Some 896400) (Some 1) PENDING],
           appointment_seq := 4\<rparr>"

text \<open>
  Doctor 1's day 10 through a booking at 09:00, its cancellation, and a second booking
  at 09:00.
\<close>

definition booked :: database where
  "booked = clinic\<lparr>appointments := [stored 1 1 (Some 896400) (Some 1) PENDING],
                    appointment_seq := 2\<rparr>"

definition freed :: database where
  "freed = clinic\<lparr>appointments := [stored 1 1 (Some 896400) (Some 1) CANCELLED],
                   appointment_seq := 2\<rparr>"

definition rebooked :: database where
  "rebooked = clinic\<lparr>appointments := [stored 1 1 (Some 896400) (Some 1) CANCELLED,
                                        stored 2 1 (Some 896400) (Some 1) PENDING],
                      appointment_seq := 3\<rparr>"

text \<open>A booking request for doctor 1 at 09:00 of day 10, as the intake builds it.\<close>

definition request_0900 :: booking_request where
  "request_0900 =
     \<lparr>br_pk = None, full_name = ''Test Patient'', date_of_birth = None,
      contact_info = ''07700000000'', br_doctor_id = Some 1,
      br_scheduled_time = Some 896400, submitted_at = None, br_status = BR_PENDING\<rparr>"

text \<open>
  Doctor 1's day 10 with bookings at 09:00 and 09:30, before and after the first one is
  cancelled.
\<close>

definition two_booked :: database where
  "two_booked = clinic\<lparr>appointments := [stored 1 1 (Some 896400) (Some 1) PENDING,
                                          stored 2 1 (Some 898200) (Some 2) PENDING],
                        appointment_seq := 3\<rparr>"

definition first_cancelled :: database where
  "first_cancelled = clinic\<lparr>appointments := [stored 1 1 (Some 896400) (Some 1) CANCELLED,
                                               stored 2 1 (Some 898200) (Some 2) PENDING],
                             appointment_seq := 3\<rparr>"


definition completed_first :: database where
  "completed_first = clinic\<lparr>appointments := [stored 1 1 (Some 896400) (Some 1) COMPLETED],
                             appointment_seq := 2\<rparr>"

section \<open>Properties\<close>

text \<open>The equations that evaluate the model on concrete data.\<close>

lemmas eval_defs =
  save_def Let_def to_local_aware_def local_date_def utc_date_def full_clean_def clean_fields_def
  POSITIVE_INTEGER_MAX_def
  Appointment_clean_def PAST_MARGIN_def Model_save_def db_insert_def db_update_def
  violates_constraints_def uq_doctor_time_not_cancelled_def uq_doctor_day_queue_active_def
  get_object_def Appointment_def clinic_def stored_def copy_column_def

lemma set_non_null: "set (non_null xs) = {x. Some x \<in> set xs}"
  by (induction xs rule: non_null.induct) auto

lemma aggregate_Max_non_null:
  "aggregate_Max xs = (if non_null xs = [] then None else Some (Max (set (non_null xs))))"
  by (induction xs rule: aggregate_Max.induct) (auto simp: max_def split: option.splits)

lemma aggregate_Max_None: "aggregate_Max xs = None \<Longrightarrow> Some n \<notin> set xs"
  by (induction xs rule: aggregate_Max.induct) (auto split: option.splits)

lemma aggregate_Max_upper: "aggregate_Max xs = Some m \<Longrightarrow> Some n \<in> set xs \<Longrightarrow> n \<le> m"
  by (induction xs arbitrary: m rule: aggregate_Max.induct)
     (auto split: option.splits dest: aggregate_Max_None)

lemma next_number_above:
  "Some n \<in> set xs \<Longrightarrow> n < (case aggregate_Max xs of None \<Rightarrow> 0 | Some mx \<Rightarrow> mx) + 1"
  by (cases "aggregate_Max xs") (auto dest: aggregate_Max_None aggregate_Max_upper)

lemma get_object_Some: "get_object d k = Some r \<Longrightarrow> r \<in> set (appointments d) \<and> pk r = Some k"
  unfolding get_object_def by (auto simp: find_Some_iff)

lemma get_object_None: "get_object d k = None \<Longrightarrow> r \<in> set (appointments d) \<Longrightarrow> pk r \<noteq> Some k"
  unfolding get_object_def by (auto simp: find_None_iff)

lemma pk_copy_column: "pk (copy_column f src dst) = pk dst"
  by (simp add: copy_column_def)

lemma pk_fold_copy: "pk (fold (\<lambda>f. copy_column f src) fs dst) = pk dst"
  by (induction fs arbitrary: dst) (simp_all add: pk_copy_column)

lemma qn_fold_copy:
  "queue_number src = queue_number dst \<Longrightarrow>
   queue_number (fold (\<lambda>f. copy_column f src) fs dst) = queue_number dst"
  by (induction fs arbitrary: dst) (simp_all add: copy_column_def)

lemma save_create_result:
  assumes "pk self = None" and "scheduled_time self = Some t"
    and "save tz now d self uf = Inr (d', self')"
  shows "queue_number self' = Some ((case aggregate_Max (map queue_number
                   (filter (\<lambda>r. doctor_id r = doctor_id self \<and> scheduled_day r = Some (local_date tz t) \<and>
                                  status r \<noteq> CANCELLED) (appointments d))) of None \<Rightarrow> 0 | Some mx \<Rightarrow> mx) + 1)"
    and "pk self' = Some (appointment_seq d)"
    and "doctor_id self' = doctor_id self"
    and "patient_id self' = patient_id self"
    and "scheduled_time self' = Some t"
    and "scheduled_day self' = Some (local_date tz t)"
    and "status self' = status self"
    and "appt_notes self' = appt_notes self"
    and "appointments d' = appointments d @ [self']"
    and "doctors d' = doctors d" and "patients d' = patients d"
    and "appointment_seq d' = Suc (appointment_seq d)"
  using assms
  by (auto simp: save_def Let_def to_local_aware_def Model_save_def db_insert_def
           split: if_splits list.splits option.splits)

text \<open>The three ways a write through save can change the table.\<close>

lemma db_insert_result:
  assumes "db_insert now d a = Inr (d', a')"
  shows "\<exists>k. pk a' = Some k \<and> (pk a = None \<longrightarrow> k = appointment_seq d) \<and> (pk a \<noteq> None \<longrightarrow> pk a = Some k)
           \<and> \<not> (\<exists>r \<in> set (appointments d). pk r = Some k)
           \<and> \<not> violates_constraints (appointments d) a'
           \<and> appointments d' = appointments d @ [a']
           \<and> appointment_seq d' = (if pk a = None then Suc (appointment_seq d) else appointment_seq d)
           \<and> a' = a\<lparr>pk := Some k, created_at := Some now\<rparr>"
  using assms
  by (auto simp: db_insert_def Let_def split: if_splits option.splits)

lemma db_update_result:
  assumes "db_update d k a' = Inr d'"
  shows "\<not> violates_constraints (appointments d) a'
         \<and> appointments d' = map (\<lambda>r. if pk r = Some k then a' else r) (appointments d)
         \<and> appointment_seq d' = appointment_seq d"
  using assms by (auto simp: db_update_def split: if_splits)

lemma Model_save_result:
  assumes "Model_save now d self uf = Inr (d', self')"
  shows "(\<exists>k. pk self' = Some k \<and> (pk self = None \<longrightarrow> k = appointment_seq d)
             \<and> (pk self = None \<or> (pk self = Some k \<and> get_object d k = None))
             \<and> \<not> (\<exists>r \<in> set (appointments d). pk r = Some k)
             \<and> \<not> violates_constraints (appointments d) self'
             \<and> appointments d' = appointments d @ [self']
             \<and> appointment_seq d' = (if pk self = None then Suc (appointment_seq d) else appointment_seq d)
             \<and> self' = self\<lparr>pk := Some k, created_at := Some now\<rparr>)
       \<or> (\<exists>k r r'. pk self = Some k \<and> get_object d k = Some r \<and> pk r' = Some k
             \<and> r' = (case uf of None \<Rightarrow> self | Some fs \<Rightarrow> fold (\<lambda>f. copy_column f self) fs r)
             \<and> \<not> violates_constraints (appointments d) r'
             \<and> appointments d' = map (\<lambda>x. if pk x = Some k then r' else x) (appointments d)
             \<and> appointment_seq d' = appointment_seq d \<and> self' = self)"
proof (cases "pk self")
  case None
  with assms have "db_insert now d self = Inr (d', self')" by (simp add: Model_save_def)
  from db_insert_result[OF this] None show ?thesis by auto
next
  case (Some k)
  show ?thesis
  proof (cases "get_object d k")
    case None
    with Some assms have "db_insert now d self = Inr (d', self')"
      by (auto simp: Model_save_def split: option.splits)
    from db_insert_result[OF this] Some None show ?thesis by auto
  next
    case (Some r)
    let ?r' = "(case uf of None \<Rightarrow> self | Some fs \<Rightarrow> fold (\<lambda>f. copy_column f self) fs r)"
    from Some \<open>pk self = Some k\<close> assms have u: "db_update d k ?r' = Inr d'" and s: "self' = self"
      by (auto simp: Model_save_def Let_def split: sum.splits)
    have "pk ?r' = Some k" using \<open>pk self = Some k\<close> get_object_Some[OF Some]
      by (cases uf) (simp_all add: pk_fold_copy)
    with db_update_result[OF u] s Some \<open>pk self = Some k\<close> show ?thesis by blast
  qed
qed

subsection \<open>Queue allocation\<close>

text \<open>
  C3. Creating an appointment with a scheduled time gives it the largest queue number
  among the active appointments of the same doctor and local day plus one, and 1 when
  there is none; the numbers of other doctors play no part.
\<close>

theorem create_assigns_max_plus_one:
  assumes "pk self = None" and "scheduled_time self = Some t"
    and "save tz now d self None = Inr (d', self')"
  shows "queue_number self' =
           Some (if active_queue_numbers d (doctor_id self) (local_date tz t) = [] then 1
                 else Max (set (active_queue_numbers d (doctor_id self) (local_date tz t))) + 1)
         \<and> self' \<in> set (appointments d')"
  using save_create_result(1,9)[OF assms]
  by (simp add: active_queue_numbers_def aggregate_Max_non_null)

theorem create_assigns_max_plus_one_witness:
  "\<exists>d' self'. save 0 890000 day10 (Appointment 2 1 (Some 900000)) None = Inr (d', self')
      \<and> active_queue_numbers day10 1 10 = [1]
      \<and> queue_number self' = Some 2"
proof -
  have "\<exists>d' self'. save 0 890000 day10 (Appointment 2 1 (Some 900000)) None = Inr (d', self')"
    by (simp add: eval_defs day10_def)
  then obtain d' self' where
    h: "save 0 890000 day10 (Appointment 2 1 (Some 900000)) None = Inr (d', self')" by blast
  have p: "pk (Appointment 2 1 (Some 900000)) = None"
    and t: "scheduled_time (Appointment 2 1 (Some 900000)) = Some 900000"
    and doc: "doctor_id (Appointment 2 1 (Some 900000)) = 1"
    by (simp_all add: Appointment_def)
  have a: "active_queue_numbers day10 1 10 = [1]"
    by (simp add: active_queue_numbers_def day10_def clinic_def stored_def local_date_def)
  have l: "local_date 0 900000 = 10" by (simp add: local_date_def)
  from create_assigns_max_plus_one[OF p t h] have "queue_number self' = Some 2"
    unfolding doc l a by simp
  with h a show ?thesis by blast
qed

lemma save_Inr:
  assumes "save tz now d self uf = Inr (d', self')"
  shows "\<exists>s. Model_save now d s uf = Inr (d', self') \<and> full_clean now d s = []
           \<and> pk s = pk self \<and> doctor_id s = doctor_id self \<and> patient_id s = patient_id self
           \<and> scheduled_time s = scheduled_time self
           \<and> scheduled_day s = map_option (local_date tz) (scheduled_time self)
           \<and> status s = status self \<and> appt_notes s = appt_notes self
           \<and> (pk self \<noteq> None \<or> scheduled_time self = None \<longrightarrow> queue_number s = queue_number self)"
  using assms
  by (auto simp: save_def Let_def to_local_aware_def split: if_splits list.splits option.splits)

lemma find_map_replace:
  assumes "find (\<lambda>r. pk r = Some k) rows = Some r" and "pk r' = Some k"
  shows "find (\<lambda>r. pk r = Some k) (map (\<lambda>x. if pk x = Some k then r' else x) rows) = Some r'"
  using assms by (induction rows) (auto split: if_splits)

lemma find_map_other:
  assumes "j \<noteq> k" and "pk r' = Some k"
  shows "find (\<lambda>r. pk r = Some j) (map (\<lambda>x. if pk x = Some k then r' else x) rows)
         = find (\<lambda>r. pk r = Some j) rows"
  using assms by (induction rows) auto

lemma save_update_result:
  assumes "pk self = Some k" and "get_object d k = Some r"
    and "save tz now d self uf = Inr (d', self')"
  shows "\<exists>r'. get_object d' k = Some r' \<and> pk r' = Some k
           \<and> appointments d' = map (\<lambda>x. if pk x = Some k then r' else x) (appointments d)
           \<and> \<not> violates_constraints (appointments d) r'
           \<and> r' = (case uf of None \<Rightarrow> self' | Some fs \<Rightarrow> fold (\<lambda>f. copy_column f self') fs r)
           \<and> queue_number self' = queue_number self
           \<and> status self' = status self
           \<and> scheduled_time self' = scheduled_time self
           \<and> scheduled_day self' = map_option (local_date tz) (scheduled_time self)
           \<and> doctor_id self' = doctor_id self
           \<and> appointment_seq d' = appointment_seq d
           \<and> full_clean now d self' = []"
proof -
  from save_Inr[OF assms(3)] assms(1) obtain s where
    m: "Model_save now d s uf = Inr (d', self')" and s: "pk s = Some k"
    "queue_number s = queue_number self" "status s = status self"
    "scheduled_time s = scheduled_time self"
    "scheduled_day s = map_option (local_date tz) (scheduled_time self)"
    "doctor_id s = doctor_id self" "full_clean now d s = []"
    by auto
  from get_object_Some[OF assms(2)] have "\<exists>x \<in> set (appointments d). pk x = Some k" by blast
  with Model_save_result[OF m] s(1) assms(2) obtain r' where
    r': "pk r' = Some k"
    "r' = (case uf of None \<Rightarrow> s | Some fs \<Rightarrow> fold (\<lambda>f. copy_column f s) fs r)"
    "\<not> violates_constraints (appointments d) r'"
    "appointments d' = map (\<lambda>x. if pk x = Some k then r' else x) (appointments d)"
    "appointment_seq d' = appointment_seq d" "self' = s"
    by auto
  have "get_object d' k = Some r'"
    using find_map_replace[of k "appointments d" r r'] assms(2) r'(1,4)
    by (simp add: get_object_def)
  with r' s show ?thesis by (cases uf) simp_all
qed

text \<open>
  C6. Saving an appointment that is already stored, with its queue number left as it
  was read, stores and returns that same number, also when the scheduled time (and so
  the scheduled day) is changed; the queue numbers of the other rows are untouched.
\<close>

theorem update_keeps_queue_number:
  assumes "pk self = Some k" and "get_object d k = Some r"
    and "queue_number self = queue_number r"
    and "save tz now d self uf = Inr (d', self')"
  shows "queue_number self' = queue_number r
         \<and> (\<exists>r'. get_object d' k = Some r' \<and> queue_number r' = queue_number r
               \<and> (uf = None \<longrightarrow> scheduled_day r' = map_option (local_date tz) (scheduled_time self)))
         \<and> (\<forall>j. j \<noteq> k \<longrightarrow> get_object d' j = get_object d j)"
proof -
  from save_update_result[OF assms(1,2,4)] obtain r' where
    r': "get_object d' k = Some r'" "pk r' = Some k"
    "appointments d' = map (\<lambda>x. if pk x = Some k then r' else x) (appointments d)"
    "r' = (case uf of None \<Rightarrow> self' | Some fs \<Rightarrow> fold (\<lambda>f. copy_column f self') fs r)"
    "queue_number self' = queue_number self"
    "scheduled_day self' = map_option (local_date tz) (scheduled_time self)"
    by blast
  have q: "queue_number r' = queue_number r"
    using r'(4,5) assms(3) by (cases uf) (simp_all add: qn_fold_copy)
  have d: "uf = None \<longrightarrow> scheduled_day r' = map_option (local_date tz) (scheduled_time self)"
    using r'(4,6) by simp
  have o: "\<forall>j. j \<noteq> k \<longrightarrow> get_object d' j = get_object d j"
    using find_map_other[OF _ r'(2)] r'(3) by (simp add: get_object_def)
  from r'(1,5) assms(3) q d o show ?thesis by simp
qed

theorem update_keeps_queue_number_witness:
  "\<exists>d' self'. get_object day10 1 = Some (stored 1 1 (Some 896400) (Some 1) PENDING)
     \<and> save 0 890000 day10 ((stored 1 1 (Some 896400) (Some 1) PENDING)\<lparr>scheduled_time := Some 1160000\<rparr>) None
          = Inr (d', self')
     \<and> queue_number self' = Some 1
     \<and> (\<exists>r'. get_object d' 1 = Some r' \<and> queue_number r' = Some 1 \<and> scheduled_day r' = Some 13)"
proof -
  let ?r = "stored 1 1 (Some 896400) (Some 1) PENDING"
  let ?self = "?r\<lparr>scheduled_time := Some 1160000\<rparr>"
  have g: "get_object day10 1 = Some ?r" by (simp add: eval_defs day10_def)
  have "\<exists>d' self'. save 0 890000 day10 ?self None = Inr (d', self')"
    by (simp add: eval_defs day10_def)
  then obtain d' self' where h: "save 0 890000 day10 ?self None = Inr (d', self')" by blast
  have p: "pk ?self = Some 1" and q: "queue_number ?self = queue_number ?r"
    and q1: "queue_number ?r = Some 1"
    and t: "map_option (local_date 0) (scheduled_time ?self) = Some 13"
    by (simp_all add: stored_def local_date_def)
  from update_keeps_queue_number[OF p g q h] g h show ?thesis
    unfolding q1 t by auto
qed

text \<open>
  C1 (as stated, refuted). Book doctor 1 at 09:00 of day 10, cancel, book again: the
  second appointment gets number 1 as well, so the numbers of the partition, cancelled
  rows included, are not distinct.
\<close>

theorem cancelled_number_is_reused:
  "save 0 0 clinic (Appointment 1 1 (Some 896400)) None
     = Inr (booked, stored 1 1 (Some 896400) (Some 1) PENDING)
   \<and> cancel_appointment POST [] [] [] booked 1 = Inr (CancelDone, freed)
   \<and> save 0 0 freed (Appointment 1 1 (Some 896400)) None
     = Inr (rebooked, stored 2 1 (Some 896400) (Some 1) PENDING)
   \<and> all_queue_numbers rebooked 1 10 = [1, 1]
   \<and> \<not> distinct (all_queue_numbers rebooked 1 10)"
  by (simp add: eval_defs booked_def freed_def rebooked_def cancel_appointment_def py_strip_def
        all_queue_numbers_def)

text \<open>
  C1 (amended). The number given to a new appointment is greater than the number of
  every active appointment of its doctor and day, hence none of theirs; the numbers of
  cancelled appointments are not reserved.
\<close>

theorem new_number_exceeds_active_numbers:
  assumes "pk self = None" and "scheduled_time self = Some t"
    and "save tz now d self None = Inr (d', self')"
  shows "\<exists>n. queue_number self' = Some n
           \<and> (\<forall>m \<in> set (active_queue_numbers d (doctor_id self) (local_date tz t)). m < n)"
proof -
  let ?xs = "map queue_number
               (filter (\<lambda>r. doctor_id r = doctor_id self \<and> scheduled_day r = Some (local_date tz t) \<and>
                             status r \<noteq> CANCELLED) (appointments d))"
  let ?n = "(case aggregate_Max ?xs of None \<Rightarrow> 0 | Some mx \<Rightarrow> mx) + 1"
  from save_create_result(1)[OF assms] have "queue_number self' = Some ?n" .
  moreover have "\<forall>m \<in> set (active_queue_numbers d (doctor_id self) (local_date tz t)). m < ?n"
    unfolding active_queue_numbers_def set_non_null using next_number_above[of _ ?xs] by blast
  ultimately show ?thesis by blast
qed

theorem new_number_exceeds_active_numbers_witness:
  "\<exists>d' self' n. save 0 890000 day10 (Appointment 2 1 (Some 900000)) None = Inr (d', self')
      \<and> active_queue_numbers day10 1 10 = [1]
      \<and> queue_number self' = Some n \<and> 1 < n"
proof -
  let ?a = "Appointment 2 1 (Some 900000)"
  have "\<exists>d' self'. save 0 890000 day10 ?a None = Inr (d', self')"
    by (simp add: eval_defs day10_def)
  then obtain d' self' where h: "save 0 890000 day10 ?a None = Inr (d', self')" by blast
  have p: "pk ?a = None" and t: "scheduled_time ?a = Some 900000" and doc: "doctor_id ?a = 1"
    by (simp_all add: Appointment_def)
  have l: "local_date 0 900000 = 10" by (simp add: local_date_def)
  have a: "active_queue_numbers day10 1 10 = [1]"
    by (simp add: active_queue_numbers_def day10_def clinic_def stored_def local_date_def)
  from new_number_exceeds_active_numbers[OF p t h]
  obtain n where "queue_number self' = Some n" and "1 < n"
    unfolding doc l a by auto
  with h a show ?thesis by blast
qed

subsection \<open>Cancellation\<close>

lemma py_strip_last: "py_strip s \<noteq> [] \<Longrightarrow> \<not> py_isspace (last (py_strip s))"
proof -
  assume a: "py_strip s \<noteq> []"
  let ?ys = "dropWhile py_isspace (rev (dropWhile py_isspace s))"
  from a have ne: "?ys \<noteq> []" by (simp add: py_strip_def)
  then have "\<not> py_isspace (hd ?ys)" by (rule hd_dropWhile)
  moreover have "last (py_strip s) = hd ?ys" using ne by (simp add: py_strip_def last_rev)
  ultimately show ?thesis by simp
qed

lemma py_strip_append:
  assumes "ys \<noteq> []" and "\<not> py_isspace (hd ys)" and "\<not> py_isspace (last ys)"
  shows "py_strip (xs @ ys) = dropWhile py_isspace xs @ ys"
proof -
  have 1: "dropWhile py_isspace (xs @ ys) = dropWhile py_isspace xs @ ys"
  proof (cases "\<forall>x \<in> set xs. py_isspace x")
    case True
    moreover have "dropWhile py_isspace ys = ys" using assms(1,2) by (cases ys) auto
    ultimately show ?thesis by (simp add: dropWhile_append)
  next
    case False
    then show ?thesis by auto
  qed
  have "dropWhile py_isspace (rev ys @ zs) = rev ys @ zs" for zs
    using assms(1,3) by (cases "rev ys") (auto simp: last_rev dest: arg_cong[where f=hd])
  then show ?thesis by (simp add: py_strip_def 1)
qed

lemma find_map_upd:
  assumes "find (\<lambda>r. pk r = Some k) rows = Some r" and "pk (f r) = Some k"
  shows "find (\<lambda>r. pk r = Some k) (map (\<lambda>x. if pk x = Some k then f x else x) rows) = Some (f r)"
  using assms by (induction rows) (auto split: if_splits)

lemma find_map_upd_other:
  assumes "j \<noteq> k" and "\<And>x. pk (f x) = pk x"
  shows "find (\<lambda>r. pk r = Some j) (map (\<lambda>x. if pk x = Some k then f x else x) rows)
         = find (\<lambda>r. pk r = Some j) rows"
  using assms by (induction rows) auto

lemma cancel_appointment_POST:
  assumes "get_object d k = Some appt" and "status appt \<noteq> COMPLETED"
  shows "cancel_appointment POST post_reason stamp user_display d k =
           Inr (CancelDone,
                d\<lparr>appointments := map (\<lambda>r. if pk r = Some k then
                      (if py_strip post_reason \<noteq> [] then
                         r\<lparr>status := CANCELLED, appt_notes := Some
                           (dropWhile py_isspace (py_format (appt_notes appt) @ [CHR 0x0A]) @
                            ''[Cancelled '' @ stamp @ '' by '' @ user_display @ ''] '' @ py_strip post_reason)\<rparr>
                       else r\<lparr>status := CANCELLED\<rparr>) else r) (appointments d)\<rparr>)"
proof (cases "py_strip post_reason = []")
  case True
  with assms show ?thesis by (simp add: cancel_appointment_def Let_def)
next
  case False
  let ?nl = "''[Cancelled '' @ stamp @ '' by '' @ user_display @ ''] '' @ py_strip post_reason"
  have "py_strip ((py_format (appt_notes appt) @ [CHR 0x0A]) @ ?nl)
        = dropWhile py_isspace (py_format (appt_notes appt) @ [CHR 0x0A]) @ ?nl"
    using False py_strip_last[OF False]
    by (intro py_strip_append) (auto simp: py_isspace_def)
  with assms False show ?thesis by (simp add: cancel_appointment_def Let_def)
qed


text \<open>
  C8 (as stated, refuted). Cancelling is not allowed from PENDING only: an appointment
  that is already CANCELLED is cancelled again, and the new reason is added to its notes.
\<close>

theorem cancel_of_cancelled_allowed:
  "get_object freed 1 = Some (stored 1 1 (Some 896400) (Some 1) CANCELLED)
   \<and> cancel_appointment POST ''again'' ''2025-01-10 09:00'' ''sec'' freed 1
       = Inr (CancelDone,
              freed\<lparr>appointments :=
                [(stored 1 1 (Some 896400) (Some 1) CANCELLED)
                   \<lparr>appt_notes := Some (''None'' @ [CHR 0x0A] @
                                         ''[Cancelled 2025-01-10 09:00 by sec] again'')\<rparr>]\<rparr>)"
  by (simp add: eval_defs freed_def cancel_appointment_def py_strip_def py_isspace_def py_format_def)

text \<open>
  C8 (amended). A posted cancellation is refused exactly when the appointment is
  COMPLETED, and then changes nothing. From PENDING and from CANCELLED it succeeds: the
  table keeps the same rows, the appointment's status is CANCELLED, a non-blank reason is
  appended to its notes as one more line and a blank one leaves them alone, and no other
  row changes.
\<close>

theorem cancel_refused_iff_completed:
  assumes "get_object d k = Some appt"
  shows "\<exists>out d'. cancel_appointment POST post_reason stamp user_display d k = Inr (out, d')
           \<and> (out = CancelRefusedCompleted \<longleftrightarrow> status appt = COMPLETED)
           \<and> (status appt = COMPLETED \<longrightarrow> d' = d)
           \<and> (status appt \<noteq> COMPLETED \<longrightarrow>
                 out = CancelDone
                 \<and> map pk (appointments d') = map pk (appointments d)
                 \<and> get_object d' k =
                     Some (if py_strip post_reason = [] then appt\<lparr>status := CANCELLED\<rparr>
                           else appt\<lparr>status := CANCELLED,
                                     appt_notes := Some
                                       (dropWhile py_isspace (py_format (appt_notes appt) @ [CHR 0x0A]) @
                                        ''[Cancelled '' @ stamp @ '' by '' @ user_display @ ''] '' @
                                        py_strip post_reason)\<rparr>)
                 \<and> (\<forall>j. j \<noteq> k \<longrightarrow> get_object d' j = get_object d j))"
proof (cases "status appt = COMPLETED")
  case True
  with assms show ?thesis by (simp add: cancel_appointment_def)
next
  case False
  let ?f = "\<lambda>r. if py_strip post_reason \<noteq> [] then
                   r\<lparr>status := CANCELLED, appt_notes := Some
                       (dropWhile py_isspace (py_format (appt_notes appt) @ [CHR 0x0A]) @
                        ''[Cancelled '' @ stamp @ '' by '' @ user_display @ ''] '' @ py_strip post_reason)\<rparr>
                 else r\<lparr>status := CANCELLED\<rparr>"
  let ?d' = "d\<lparr>appointments := map (\<lambda>r. if pk r = Some k then ?f r else r) (appointments d)\<rparr>"
  have c: "cancel_appointment POST post_reason stamp user_display d k = Inr (CancelDone, ?d')"
    by (rule cancel_appointment_POST[OF assms False])
  have pkf: "\<And>x. pk (?f x) = pk x" by simp
  have 1: "map pk (appointments ?d') = map pk (appointments d)"
    by (simp add: comp_def cong: map_cong)
  have 2: "get_object ?d' k = Some (?f appt)"
    using find_map_upd[of k "appointments d" appt ?f] assms get_object_Some[OF assms]
    by (simp add: get_object_def)
  have 3: "\<forall>j. j \<noteq> k \<longrightarrow> get_object ?d' j = get_object d j"
    using find_map_upd_other[of _ k ?f "appointments d"] by (simp add: get_object_def)
  from c 1 2 3 False show ?thesis by auto
qed

theorem cancel_refused_iff_completed_witness:
  "get_object booked 1 = Some (stored 1 1 (Some 896400) (Some 1) PENDING)
   \<and> (\<exists>d'. cancel_appointment POST ''  no show '' ''2025-01-10 09:00'' ''sec'' booked 1 = Inr (CancelDone, d')
          \<and> map pk (appointments d') = [Some 1]
          \<and> get_object d' 1 =
              Some ((stored 1 1 (Some 896400) (Some 1) CANCELLED)
                      \<lparr>appt_notes := Some (''None'' @ [CHR 0x0A] @
                                           ''[Cancelled 2025-01-10 09:00 by sec] no show'')\<rparr>))"
proof -
  have g: "get_object booked 1 = Some (stored 1 1 (Some 896400) (Some 1) PENDING)"
    by (simp add: eval_defs booked_def)
  have s: "py_strip ''  no show '' = ''no show''"
    by (simp add: py_strip_def py_isspace_def)
  have n: "dropWhile py_isspace (py_format (appt_notes (stored 1 1 (Some 896400) (Some 1) PENDING)) @ [CHR 0x0A])
           = ''None'' @ [CHR 0x0A]"
    by (simp add: py_format_def stored_def py_isspace_def)
  have st: "status (stored 1 1 (Some 896400) (Some 1) PENDING) \<noteq> COMPLETED"
    by (simp add: stored_def)
  have m: "map pk (appointments booked) = [Some 1]" by (simp add: booked_def clinic_def stored_def)
  from cancel_refused_iff_completed[OF g, of "''  no show ''" "''2025-01-10 09:00''" "''sec''"]
  obtain out d' where
    "cancel_appointment POST ''  no show '' ''2025-01-10 09:00'' ''sec'' booked 1 = Inr (out, d')"
    "out = CancelDone" "map pk (appointments d') = [Some 1]"
    "get_object d' 1 =
       Some ((stored 1 1 (Some 896400) (Some 1) PENDING)
               \<lparr>status := CANCELLED,
                appt_notes := Some ((''None'' @ [CHR 0x0A]) @
                                     ''[Cancelled '' @ ''2025-01-10 09:00'' @ '' by '' @ ''sec'' @ ''] '' @ ''no show'')\<rparr>)"
    unfolding s n m using st by auto
  then show ?thesis using g by (auto simp: stored_def)
qed

subsection \<open>Form layer\<close>

text \<open>
  C10. Neither form looks at the status of the appointments it checks against. The staff
  form rejects exactly when some appointment of the doctor other than the one being
  edited lies within one minute (bounds included) of the proposed time; the public form
  rejects exactly when some appointment of the doctor has the proposed time. So a
  cancelled appointment at the proposed time makes both forms reject.
\<close>

theorem form_checks_ignore_status:
  "(AppointmentForm_clean d instance_pk cleaned = Inl OneMinuteGapRequired \<longleftrightarrow>
      (\<exists>doctor t. cd_doctor cleaned = Some doctor \<and> cd_scheduled_time cleaned = Some t \<and>
         (\<exists>r \<in> set (appointments d). doctor_id r = doctor \<and> pk r \<noteq> instance_pk \<and>
            (\<exists>s. scheduled_time r = Some s \<and> t - 60 \<le> s \<and> s \<le> t + 60))))
   \<and> (PatientBookingForm_clean d cleaned = Inl TimeAlreadyAllocated \<longleftrightarrow>
      (\<exists>doctor t. cd_doctor cleaned = Some doctor \<and> cd_scheduled_time cleaned = Some t \<and>
         (\<exists>r \<in> set (appointments d). doctor_id r = doctor \<and> scheduled_time r = Some t)))
   \<and> (\<forall>r \<in> set (appointments d).
         status r = CANCELLED \<and> pk r \<noteq> instance_pk \<and>
         cd_doctor cleaned = Some (doctor_id r) \<and> cd_scheduled_time cleaned \<noteq> None \<and>
         cd_scheduled_time cleaned = scheduled_time r \<longrightarrow>
           AppointmentForm_clean d instance_pk cleaned = Inl OneMinuteGapRequired \<and>
           PatientBookingForm_clean d cleaned = Inl TimeAlreadyAllocated)"
proof (intro conjI)
  show a: "AppointmentForm_clean d instance_pk cleaned = Inl OneMinuteGapRequired \<longleftrightarrow>
      (\<exists>doctor t. cd_doctor cleaned = Some doctor \<and> cd_scheduled_time cleaned = Some t \<and>
         (\<exists>r \<in> set (appointments d). doctor_id r = doctor \<and> pk r \<noteq> instance_pk \<and>
            (\<exists>s. scheduled_time r = Some s \<and> t - 60 \<le> s \<and> s \<le> t + 60)))"
    by (cases "cd_doctor cleaned"; cases "cd_scheduled_time cleaned")
       (auto simp: AppointmentForm_clean_def to_local_aware_def Let_def split: option.splits)
  show b: "PatientBookingForm_clean d cleaned = Inl TimeAlreadyAllocated \<longleftrightarrow>
      (\<exists>doctor t. cd_doctor cleaned = Some doctor \<and> cd_scheduled_time cleaned = Some t \<and>
         (\<exists>r \<in> set (appointments d). doctor_id r = doctor \<and> scheduled_time r = Some t))"
    by (cases "cd_doctor cleaned"; cases "cd_scheduled_time cleaned")
       (auto simp: PatientBookingForm_clean_def to_local_aware_def split: option.splits)
  show "\<forall>r \<in> set (appointments d).
         status r = CANCELLED \<and> pk r \<noteq> instance_pk \<and>
         cd_doctor cleaned = Some (doctor_id r) \<and> cd_scheduled_time cleaned \<noteq> None \<and>
         cd_scheduled_time cleaned = scheduled_time r \<longrightarrow>
           AppointmentForm_clean d instance_pk cleaned = Inl OneMinuteGapRequired \<and>
           PatientBookingForm_clean d cleaned = Inl TimeAlreadyAllocated"
    unfolding a b
  proof (intro ballI impI)
    fix r assume r: "r \<in> set (appointments d)"
      and h: "status r = CANCELLED \<and> pk r \<noteq> instance_pk \<and>
         cd_doctor cleaned = Some (doctor_id r) \<and> cd_scheduled_time cleaned \<noteq> None \<and>
         cd_scheduled_time cleaned = scheduled_time r"
    then obtain t where t: "scheduled_time r = Some t" "cd_scheduled_time cleaned = Some t"
      by (cases "scheduled_time r") auto
    have "t - 60 \<le> t \<and> t \<le> t + 60" by simp
    with r h t show "(\<exists>doctor t. cd_doctor cleaned = Some doctor \<and> cd_scheduled_time cleaned = Some t \<and>
         (\<exists>r \<in> set (appointments d). doctor_id r = doctor \<and> pk r \<noteq> instance_pk \<and>
            (\<exists>s. scheduled_time r = Some s \<and> t - 60 \<le> s \<and> s \<le> t + 60))) \<and>
      (\<exists>doctor t. cd_doctor cleaned = Some doctor \<and> cd_scheduled_time cleaned = Some t \<and>
         (\<exists>r \<in> set (appointments d). doctor_id r = doctor \<and> scheduled_time r = Some t))"
      by blast
  qed
qed

theorem form_checks_ignore_status_witness:
  "stored 1 1 (Some 896400) (Some 1) CANCELLED \<in> set (appointments freed)
   \<and> AppointmentForm_clean freed None
       \<lparr>cd_doctor = Some 1, cd_scheduled_time = Some 896400, cd_iqd_amount = None\<rparr>
       = Inl OneMinuteGapRequired
   \<and> PatientBookingForm_clean freed
       \<lparr>cd_doctor = Some 1, cd_scheduled_time = Some 896400, cd_iqd_amount = None\<rparr>
       = Inl TimeAlreadyAllocated
   \<and> Appointment_clean 0 freed (Appointment 1 1 (Some 896400)) = []"
proof -
  let ?r = "stored 1 1 (Some 896400) (Some 1) CANCELLED"
  let ?c = "\<lparr>cd_doctor = Some 1, cd_scheduled_time = Some 896400, cd_iqd_amount = None\<rparr>"
  have m: "?r \<in> set (appointments freed)" by (simp add: freed_def clinic_def)
  have h: "status ?r = CANCELLED \<and> pk ?r \<noteq> None \<and>
         cd_doctor ?c = Some (doctor_id ?r) \<and> cd_scheduled_time ?c \<noteq> None \<and>
         cd_scheduled_time ?c = scheduled_time ?r"
    by (simp add: stored_def)
  from form_checks_ignore_status[of freed None ?c] m h
  have "AppointmentForm_clean freed None ?c = Inl OneMinuteGapRequired \<and>
        PatientBookingForm_clean freed ?c = Inl TimeAlreadyAllocated"
    by blast
  moreover have "Appointment_clean 0 freed (Appointment 1 1 (Some 896400)) = []"
    by (simp add: eval_defs freed_def)
  ultimately show ?thesis using m by simp
qed

subsection \<open>Booking requests\<close>

lemmas br_eval_defs =
  PatientBookingRequest_save_def br_full_clean_def br_clean_fields_def
  PatientBookingRequest_clean_def request_0900_def

text \<open>
  What holds of a request for a time before \<open>now - PAST_MARGIN\<close>: it is rejected with an
  error on \<open>scheduled_time\<close> and nothing is stored; the message is the past-time one
  when no active appointment of the doctor has that very time. A time at or after the
  bound never draws the past-time message.
\<close>

lemma past_request_clean:
  assumes "br_scheduled_time self = Some t" and "t < now - PAST_MARGIN"
  shows "PatientBookingRequest_clean now d self = [(''scheduled_time'', PastTimeError)]
         \<or> PatientBookingRequest_clean now d self = [(''scheduled_time'', SlotTakenError)]"
  using assms
  by (auto simp: PatientBookingRequest_clean_def to_local_aware_def Let_def split: option.splits)

lemma invalid_request_not_saved:
  assumes "br_full_clean now d (self\<lparr>br_scheduled_time := to_local_aware (br_scheduled_time self)\<rparr>) \<noteq> []"
  shows "PatientBookingRequest_save now d self =
           Inl (ValidationError
                  (br_full_clean now d (self\<lparr>br_scheduled_time := to_local_aware (br_scheduled_time self)\<rparr>)))"
  using assms by (simp add: PatientBookingRequest_save_def Let_def split: list.splits)

lemma past_request_rejected:
  assumes "br_scheduled_time self = Some t" and "t < now - PAST_MARGIN"
  shows "\<exists>errs. PatientBookingRequest_save now d self = Inl (ValidationError errs)
           \<and> ((''scheduled_time'', PastTimeError) \<in> set errs \<or>
               (''scheduled_time'', SlotTakenError) \<in> set errs)"
proof -
  let ?s = "self\<lparr>br_scheduled_time := to_local_aware (br_scheduled_time self)\<rparr>"
  have "br_scheduled_time ?s = Some t" using assms(1) by (simp add: to_local_aware_def)
  from past_request_clean[OF this assms(2), of d]
  have c: "(''scheduled_time'', PastTimeError) \<in> set (br_full_clean now d ?s) \<or>
           (''scheduled_time'', SlotTakenError) \<in> set (br_full_clean now d ?s)"
    by (auto simp: br_full_clean_def)
  then have "br_full_clean now d ?s \<noteq> []" by auto
  from invalid_request_not_saved[OF this] c show ?thesis by blast
qed

lemma past_request_message:
  assumes "br_scheduled_time self = Some t" and "t < now - PAST_MARGIN"
    and "\<not> (\<exists>r \<in> set (appointments d). br_doctor_id self = Some (doctor_id r) \<and>
               scheduled_time r = Some t \<and> status r \<noteq> CANCELLED)"
  shows "PatientBookingRequest_clean now d self = [(''scheduled_time'', PastTimeError)]"
  using assms
  by (auto simp: PatientBookingRequest_clean_def to_local_aware_def Let_def split: option.splits)

lemma request_in_grace_window:
  assumes "br_scheduled_time self = Some t" and "now - PAST_MARGIN \<le> t"
  shows "(''scheduled_time'', PastTimeError) \<notin> set (PatientBookingRequest_clean now d self)"
  using assms
  by (auto simp: PatientBookingRequest_clean_def to_local_aware_def Let_def split: option.splits)

text \<open>
  C9 (the code departs from it). A request for 09:00 of day 10, made long after, while an
  active appointment of the same doctor holds 09:00: the past-time message is replaced
  by the slot message under the same key, and the request fails with that one alone.
\<close>

theorem past_request_reports_slot_taken:
  "896400 < 1000000 - PAST_MARGIN
   \<and> PatientBookingRequest_clean 1000000 booked request_0900 = [(''scheduled_time'', SlotTakenError)]
   \<and> PatientBookingRequest_save 1000000 booked request_0900
       = Inl (ValidationError [(''scheduled_time'', SlotTakenError)])"
  by (simp add: br_eval_defs eval_defs booked_def)

subsection \<open>What every reachable state satisfies\<close>

lemma uq_time_sym: "uq_doctor_time_not_cancelled a r = uq_doctor_time_not_cancelled r a"
  by (auto simp: uq_doctor_time_not_cancelled_def)

lemma uq_queue_sym: "uq_doctor_day_queue_active a r = uq_doctor_day_queue_active r a"
  by (auto simp: uq_doctor_day_queue_active_def)

lemma uq_cancelled:
  "status a = CANCELLED \<Longrightarrow> \<not> uq_doctor_time_not_cancelled a r \<and> \<not> uq_doctor_time_not_cancelled r a
     \<and> \<not> uq_doctor_day_queue_active a r \<and> \<not> uq_doctor_day_queue_active r a"
  by (simp add: uq_doctor_time_not_cancelled_def uq_doctor_day_queue_active_def)

lemma constraints_hold_append:
  assumes "constraints_hold rows" and "pk a \<notin> pk ` set rows"
    and "\<not> violates_constraints rows a"
  shows "constraints_hold (rows @ [a])"
proof -
  have old: "\<And>x y. x \<in> set rows \<Longrightarrow> y \<in> set rows \<Longrightarrow> pk x \<noteq> pk y \<Longrightarrow>
      \<not> uq_doctor_time_not_cancelled x y \<and> \<not> uq_doctor_day_queue_active x y"
    using assms(1) unfolding constraints_hold_def by blast
  have new: "\<And>y. y \<in> set rows \<Longrightarrow>
      \<not> uq_doctor_time_not_cancelled a y \<and> \<not> uq_doctor_day_queue_active a y
      \<and> \<not> uq_doctor_time_not_cancelled y a \<and> \<not> uq_doctor_day_queue_active y a"
  proof -
    fix y assume y: "y \<in> set rows"
    with assms(2) have "pk y \<noteq> pk a" by (auto simp: image_iff)
    with y assms(3) have "\<not> uq_doctor_time_not_cancelled a y \<and> \<not> uq_doctor_day_queue_active a y"
      unfolding violates_constraints_def by blast
    then show "\<not> uq_doctor_time_not_cancelled a y \<and> \<not> uq_doctor_day_queue_active a y
      \<and> \<not> uq_doctor_time_not_cancelled y a \<and> \<not> uq_doctor_day_queue_active y a"
      using uq_time_sym[of a y] uq_queue_sym[of a y] by simp
  qed
  have "distinct (map pk (rows @ [a]))"
    using assms(1,2) by (simp add: constraints_hold_def)
  moreover have "\<not> (\<exists>r\<in>set (rows @ [a]). \<exists>r'\<in>set (rows @ [a]).
               pk r \<noteq> pk r' \<and> (uq_doctor_time_not_cancelled r r' \<or> uq_doctor_day_queue_active r r'))"
    using old new by auto
  ultimately show ?thesis unfolding constraints_hold_def by simp
qed

lemma map_pk_replace:
  "pk a = Some k \<Longrightarrow> map pk (map (\<lambda>x. if pk x = Some k then a else x) rows) = map pk rows"
  by (induction rows) auto

lemma constraints_hold_replace:
  assumes "constraints_hold rows" and "pk a = Some k"
    and "\<not> violates_constraints rows a"
  shows "constraints_hold (map (\<lambda>x. if pk x = Some k then a else x) rows)"
proof -
  have d: "distinct (map pk (map (\<lambda>x. if pk x = Some k then a else x) rows))"
    using assms(1,2) by (simp only: map_pk_replace) (simp add: constraints_hold_def)
  have old: "\<And>x y. x \<in> set rows \<Longrightarrow> y \<in> set rows \<Longrightarrow> pk x \<noteq> pk y \<Longrightarrow>
      \<not> uq_doctor_time_not_cancelled x y \<and> \<not> uq_doctor_day_queue_active x y"
    using assms(1) unfolding constraints_hold_def by blast
  have new: "\<And>y. y \<in> set rows \<Longrightarrow> pk y \<noteq> pk a \<Longrightarrow>
      \<not> uq_doctor_time_not_cancelled a y \<and> \<not> uq_doctor_day_queue_active a y
      \<and> \<not> uq_doctor_time_not_cancelled y a \<and> \<not> uq_doctor_day_queue_active y a"
  proof -
    fix y assume y: "y \<in> set rows" "pk y \<noteq> pk a"
    with assms(3) have "\<not> uq_doctor_time_not_cancelled a y \<and> \<not> uq_doctor_day_queue_active a y"
      unfolding violates_constraints_def by blast
    then show "\<not> uq_doctor_time_not_cancelled a y \<and> \<not> uq_doctor_day_queue_active a y
      \<and> \<not> uq_doctor_time_not_cancelled y a \<and> \<not> uq_doctor_day_queue_active y a"
      using uq_time_sym[of a y] uq_queue_sym[of a y] by simp
  qed
  show ?thesis
    unfolding constraints_hold_def
  proof (intro conjI notI)
    show "distinct (map pk (map (\<lambda>x. if pk x = Some k then a else x) rows))" by (rule d)
  next
    assume "\<exists>r\<in>set (map (\<lambda>x. if pk x = Some k then a else x) rows).
             \<exists>r'\<in>set (map (\<lambda>x. if pk x = Some k then a else x) rows).
               pk r \<noteq> pk r' \<and> (uq_doctor_time_not_cancelled r r' \<or> uq_doctor_day_queue_active r r')"
    then obtain x y where xy: "x \<in> set rows" "y \<in> set rows"
      and ne: "pk (if pk x = Some k then a else x) \<noteq> pk (if pk y = Some k then a else y)"
      and c: "uq_doctor_time_not_cancelled (if pk x = Some k then a else x) (if pk y = Some k then a else y)
              \<or> uq_doctor_day_queue_active (if pk x = Some k then a else x) (if pk y = Some k then a else y)"
      by auto
    show False
    proof (cases "pk x = Some k")
      case True
      with ne assms(2) have "pk y \<noteq> Some k" by auto
      with True c new[OF xy(2)] assms(2) show False by simp
    next
      case False
      show False
      proof (cases "pk y = Some k")
        case True
        with False c new[OF xy(1)] assms(2) show False by simp
      next
        case F2: False
        with False ne c old[OF xy] show False by simp
      qed
    qed
  qed
qed

lemma constraints_hold_cancel:
  assumes "constraints_hold rows" and "\<And>x. pk (f x) = pk x" and "\<And>x. status (f x) = CANCELLED"
  shows "constraints_hold (map (\<lambda>x. if P x then f x else x) rows)"
proof -
  have m: "map pk (map (\<lambda>x. if P x then f x else x) rows) = map pk rows"
    using assms(2) by (induction rows) auto
  have old: "\<And>x y. x \<in> set rows \<Longrightarrow> y \<in> set rows \<Longrightarrow> pk x \<noteq> pk y \<Longrightarrow>
      \<not> uq_doctor_time_not_cancelled x y \<and> \<not> uq_doctor_day_queue_active x y"
    using assms(1) unfolding constraints_hold_def by blast
  show ?thesis
    unfolding constraints_hold_def
  proof (intro conjI notI)
    show "distinct (map pk (map (\<lambda>x. if P x then f x else x) rows))"
      using assms(1) by (simp only: m) (simp add: constraints_hold_def)
  next
    assume "\<exists>r\<in>set (map (\<lambda>x. if P x then f x else x) rows).
             \<exists>r'\<in>set (map (\<lambda>x. if P x then f x else x) rows).
               pk r \<noteq> pk r' \<and> (uq_doctor_time_not_cancelled r r' \<or> uq_doctor_day_queue_active r r')"
    then obtain x y where xy: "x \<in> set rows" "y \<in> set rows"
      and ne: "pk (if P x then f x else x) \<noteq> pk (if P y then f y else y)"
      and c: "uq_doctor_time_not_cancelled (if P x then f x else x) (if P y then f y else y)
              \<or> uq_doctor_day_queue_active (if P x then f x else x) (if P y then f y else y)"
      by auto
    from ne assms(2) have "pk x \<noteq> pk y" by (auto split: if_splits)
    from old[OF xy this] c uq_cancelled[OF assms(3)] show False
      by (auto split: if_splits)
  qed
qed

lemma constraints_hold_filter:
  assumes "constraints_hold rows"
  shows "constraints_hold (filter P rows)"
  using assms unfolding constraints_hold_def
  by (auto simp: distinct_map_filter)


lemma keys_issued_iff:
  "keys_issued d \<longleftrightarrow> (\<forall>r \<in> set (appointments d). \<exists>k. pk r = Some k \<and> k < appointment_seq d)"
  unfolding keys_issued_def
  by (auto split: option.splits simp: not_le)

lemma get_object_of_row:
  "r \<in> set (appointments d) \<Longrightarrow> pk r = Some k \<Longrightarrow> \<exists>r0. get_object d k = Some r0"
  unfolding get_object_def by (cases "find (\<lambda>r. pk r = Some k) (appointments d)") (auto simp: find_None_iff)

lemma get_object_distinct:
  assumes "distinct (map pk (appointments d))" and "r \<in> set (appointments d)" and "pk r = Some k"
  shows "get_object d k = Some r"
proof -
  from get_object_of_row[OF assms(2,3)] obtain r0 where r0: "get_object d k = Some r0" by blast
  from get_object_Some[OF r0] have "r0 \<in> set (appointments d)" "pk r0 = pk r" using assms(3) by simp_all
  with assms(1,2) have "r0 = r" by (meson distinct_map inj_onD)
  with r0 show ?thesis by simp
qed

lemma Model_save_insert:
  assumes "Model_save now d self uf = Inr (d', self')" and "pk self = None"
  shows "pk self' = Some (appointment_seq d)
         \<and> \<not> (\<exists>r\<in>set (appointments d). pk r = Some (appointment_seq d))
         \<and> \<not> violates_constraints (appointments d) self'
         \<and> appointments d' = appointments d @ [self']
         \<and> appointment_seq d' = Suc (appointment_seq d)"
  using Model_save_result[OF assms(1)] assms(2) by auto

lemma Model_save_update:
  assumes "Model_save now d self uf = Inr (d', self')" and "pk self = Some k"
    and "get_object d k = Some r"
  shows "\<exists>r'. pk r' = Some k
         \<and> \<not> violates_constraints (appointments d) r'
         \<and> appointments d' = map (\<lambda>x. if pk x = Some k then r' else x) (appointments d)
         \<and> appointment_seq d' = appointment_seq d"
  using Model_save_result[OF assms(1)] assms(2,3) by auto

lemma save_preserves:
  assumes "save tz now d self uf = Inr (d', self')"
    and "constraints_hold (appointments d)" and "keys_issued d"
    and "pk self = None \<or> (\<exists>k r. pk self = Some k \<and> get_object d k = Some r)"
  shows "constraints_hold (appointments d') \<and> keys_issued d'"
proof -
  from save_Inr[OF assms(1)] obtain s where
    m: "Model_save now d s uf = Inr (d', self')" and ps: "pk s = pk self" by blast
  from assms(4) show ?thesis
  proof
    assume "pk self = None"
    with ps have n: "pk s = None" by simp
    note a = Model_save_insert[OF m n]
    have "pk self' \<notin> pk ` set (appointments d)" using a by (auto simp: image_iff)
    from constraints_hold_append[OF assms(2) this] a
    have c: "constraints_hold (appointments d')" by simp
    have "keys_issued d'"
      using assms(3) a unfolding keys_issued_iff by (auto intro: less_SucI)
    with c show ?thesis by simp
  next
    assume "\<exists>k r. pk self = Some k \<and> get_object d k = Some r"
    then obtain k r where k: "pk s = Some k" and g: "get_object d k = Some r" using ps by auto
    from Model_save_update[OF m k g] obtain r' where a: "pk r' = Some k"
      "\<not> violates_constraints (appointments d) r'"
      "appointments d' = map (\<lambda>x. if pk x = Some k then r' else x) (appointments d)"
      "appointment_seq d' = appointment_seq d" by blast
    from constraints_hold_replace[OF assms(2) a(1,2)] a(3)
    have c: "constraints_hold (appointments d')" by simp
    from get_object_Some[OF g] assms(3) have "k < appointment_seq d"
      unfolding keys_issued_iff by auto
    then have "keys_issued d'"
      using assms(3) a(1,3,4) unfolding keys_issued_iff by auto
    with c show ?thesis by simp
  qed
qed

lemma first_Some: "first xs = Some x \<Longrightarrow> x \<in> set xs"
  by (cases xs) (auto simp: first_def)

lemma first_None: "first xs = None \<longleftrightarrow> xs = []"
  by (cases xs) (auto simp: first_def)

lemma base_qs_member:
  "n \<in> set (base_qs tz now d doctor) \<longleftrightarrow>
     n \<in> set (appointments d) \<and> doctor_id n = doctor \<and> status n = PENDING \<and>
     map_option (local_date tz) (scheduled_time n) = Some (local_date tz now)"
  by (auto simp: base_qs_def order_by_scheduled_time_def)

lemma call_next_api_cases:
  assumes "call_next_api tz now d doctor appt_id = Inr (out, d')"
  shows "(out = NoPendingAppointments \<and> d' = d)
       \<or> (\<exists>n n'. n \<in> set (appointments d) \<and> doctor_id n = doctor \<and> status n = PENDING
             \<and> save tz now d (n\<lparr>status := COMPLETED\<rparr>) (Some [''status'']) = Inr (d', n')
             \<and> out = Updated n')"
proof -
  define nxt where "nxt = (case appt_id of
                   Some k \<Rightarrow>
                     (case first (filter (\<lambda>r. pk r = Some k \<and> doctor_id r = doctor) (appointments d)) of
                        None \<Rightarrow> first (base_qs tz now d doctor)
                      | Some n \<Rightarrow>
                          if status n \<noteq> PENDING \<or>
                             (case scheduled_time n of None \<Rightarrow> False | Some t \<Rightarrow> utc_date t \<noteq> local_date tz now)
                          then first (base_qs tz now d doctor)
                          else Some n)
                 | None \<Rightarrow> first (base_qs tz now d doctor))"
  have r: "call_next_api tz now d doctor appt_id =
        (case nxt of None \<Rightarrow> Inr (NoPendingAppointments, d)
         | Some n \<Rightarrow> (case save tz now d (n\<lparr>status := COMPLETED\<rparr>) (Some [''status'']) of
                Inl e \<Rightarrow> Inl e | Inr (d', n') \<Rightarrow> Inr (Updated n', d')))"
    by (simp add: call_next_api_def Let_def nxt_def)
  have p: "\<And>n. nxt = Some n \<Longrightarrow> n \<in> set (appointments d) \<and> doctor_id n = doctor \<and> status n = PENDING"
    unfolding nxt_def
    by (auto split: option.splits if_splits dest!: first_Some simp: base_qs_member)
  show ?thesis
  proof (cases nxt)
    case None
    with assms r show ?thesis by simp
  next
    case (Some n)
    with assms r p[OF Some] show ?thesis
      by (auto split: sum.splits)
  qed
qed

lemma reachable_invariant:
  assumes "reachable tz d"
  shows "constraints_hold (appointments d) \<and> keys_issued d"
  using assms
proof (induction rule: reachable.induct)
  case (reachable_init d)
  then show ?case by (simp add: constraints_hold_def keys_issued_def)
next
  case (reachable_create d self now d' self')
  from save_preserves[OF reachable_create(3)] reachable_create(2,4) show ?case by simp
next
  case (reachable_edit d k r self now d' self')
  from save_preserves[OF reachable_edit(4)] reachable_edit(2,3,5) show ?case by simp
next
  case (reachable_cancel d meth post_reason stamp user_display k out d')
  let ?f = "\<lambda>r. if py_strip post_reason \<noteq> []
              then r\<lparr>status := CANCELLED, appt_notes := Some
                (py_strip (py_format (appt_notes (the (get_object d k))) @ [CHR 0x0A] @
                   (''[Cancelled '' @ stamp @ '' by '' @ user_display @ ''] '' @ py_strip post_reason)))\<rparr>
              else r\<lparr>status := CANCELLED\<rparr>"
  from reachable_cancel(2) have
    "d' = d \<or> d' = d\<lparr>appointments := map (\<lambda>r. if pk r = Some k then ?f r else r) (appointments d)\<rparr>"
    by (auto simp: cancel_appointment_def Let_def split: option.splits if_splits)
  then show ?case
  proof
    assume "d' = d" with reachable_cancel(3) show ?thesis by simp
  next
    assume e: "d' = d\<lparr>appointments := map (\<lambda>r. if pk r = Some k then ?f r else r) (appointments d)\<rparr>"
    have "constraints_hold (map (\<lambda>r. if pk r = Some k then ?f r else r) (appointments d))"
      using reachable_cancel(3) by (intro constraints_hold_cancel) simp_all
    moreover have "keys_issued d'"
      using reachable_cancel(3) unfolding keys_issued_iff e by auto
    ultimately show ?thesis using e by simp
  qed
next
  case (reachable_confirm d now k cout d')
  from reachable_confirm(2) have
    "d' = d \<or> (\<exists>appt a'. get_object d k = Some appt \<and>
        save tz now d (appt\<lparr>status := PENDING\<rparr>) (Some [''status'']) = Inr (d', a'))"
    by (auto simp: confirm_appointment_def split: option.splits if_splits sum.splits)
  then show ?case
  proof (elim disjE exE conjE)
    assume "d' = d" with reachable_confirm(3) show ?thesis by simp
  next
    fix appt a'
    assume g: "get_object d k = Some appt"
      and s: "save tz now d (appt\<lparr>status := PENDING\<rparr>) (Some [''status'']) = Inr (d', a')"
    from get_object_Some[OF g] g
    have "pk (appt\<lparr>status := PENDING\<rparr>) = None \<or>
          (\<exists>k r. pk (appt\<lparr>status := PENDING\<rparr>) = Some k \<and> get_object d k = Some r)" by simp
    from save_preserves[OF s _ _ this] reachable_confirm(3) show ?thesis by simp
  qed
next
  case (reachable_call_next d now doctor appt_id nout d')
  from call_next_api_cases[OF reachable_call_next(2)]
  show ?case
  proof (elim disjE exE conjE)
    assume "d' = d" with reachable_call_next(3) show ?thesis by simp
  next
    fix n n'
    assume n: "n \<in> set (appointments d)"
      and s: "save tz now d (n\<lparr>status := COMPLETED\<rparr>) (Some [''status'']) = Inr (d', n')"
    from n reachable_call_next(3) obtain k where k: "pk n = Some k"
      unfolding keys_issued_iff by blast
    from get_object_of_row[OF n k] k
    have "pk (n\<lparr>status := COMPLETED\<rparr>) = None \<or>
          (\<exists>k r. pk (n\<lparr>status := COMPLETED\<rparr>) = Some k \<and> get_object d k = Some r)" by simp
    from save_preserves[OF s _ _ this] reachable_call_next(3) show ?thesis by simp
  qed
next
  case (reachable_delete d k d')
  from reachable_delete(2) have e: "d' = d \<or> d' = d\<lparr>appointments := filter (\<lambda>r. pk r \<noteq> Some k) (appointments d)\<rparr>"
    by (auto simp: delete_appointment_def split: option.splits)
  then show ?case
    using reachable_delete(3) constraints_hold_filter[of "appointments d" "\<lambda>r. pk r \<noteq> Some k"]
    unfolding keys_issued_iff by auto
qed

subsection \<open>Uniqueness of active queue numbers\<close>

lemma constraints_hold_tail: "constraints_hold (r # rows) \<Longrightarrow> constraints_hold rows"
  unfolding constraints_hold_def by auto

lemma distinct_active_numbers:
  assumes "constraints_hold rows"
  shows "distinct (non_null (map queue_number
           (filter (\<lambda>r. doctor_id r = doctor \<and> scheduled_day r = Some day \<and> status r \<noteq> CANCELLED) rows)))"
  using assms
proof (induction rows)
  case Nil
  then show ?case by simp
next
  case (Cons r rows)
  let ?P = "\<lambda>r. doctor_id r = doctor \<and> scheduled_day r = Some day \<and> status r \<noteq> CANCELLED"
  from Cons have ih: "distinct (non_null (map queue_number (filter ?P rows)))"
    using constraints_hold_tail by blast
  show ?case
  proof (cases "?P r")
    case False
    with ih show ?thesis by auto
  next
    case True
    show ?thesis
    proof (cases "queue_number r")
      case None
      with True ih show ?thesis by auto
    next
      case (Some n)
      have "n \<notin> set (non_null (map queue_number (filter ?P rows)))"
      proof
        assume "n \<in> set (non_null (map queue_number (filter ?P rows)))"
        then obtain r' where r': "r' \<in> set rows" "?P r'" "queue_number r' = Some n"
          by (auto simp: set_non_null)
        with True Some have "uq_doctor_day_queue_active r r'"
          by (simp add: uq_doctor_day_queue_active_def)
        moreover have "pk r \<noteq> pk r'"
          using Cons.prems r'(1) unfolding constraints_hold_def by auto
        ultimately show False
          using Cons.prems r'(1) unfolding constraints_hold_def by auto
      qed
      with True Some ih show ?thesis by auto
    qed
  qed
qed

lemma reachable_first_cancelled: "reachable 0 first_cancelled"
proof -
  have 0: "reachable 0 clinic" by (rule reachable_init) (simp add: clinic_def)
  have 1: "save 0 0 clinic (Appointment 1 1 (Some 896400)) None
             = Inr (booked, stored 1 1 (Some 896400) (Some 1) PENDING)"
    by (simp add: eval_defs booked_def)
  have 2: "save 0 0 booked (Appointment 1 1 (Some 898200)) None
             = Inr (two_booked, stored 2 1 (Some 898200) (Some 2) PENDING)"
    by (simp add: eval_defs booked_def two_booked_def)
  have 3: "cancel_appointment POST [] [] [] two_booked 1 = Inr (CancelDone, first_cancelled)"
    by (simp add: eval_defs two_booked_def first_cancelled_def cancel_appointment_def py_strip_def)
  have p: "pk (Appointment 1 1 (Some 896400)) = None" "pk (Appointment 1 1 (Some 898200)) = None"
    by (simp_all add: Appointment_def)
  from reachable_create[OF 0 p(1) 1] have "reachable 0 booked" .
  from reachable_create[OF this p(2) 2] have "reachable 0 two_booked" .
  from reachable_cancel[OF this 3] show ?thesis .
qed

text \<open>
  C4 (as stated, refuted). Two bookings of doctor 1 on day 10, then the first is
  cancelled: the state is reachable and the only active number of the day is 2, so the
  active numbers do not start at 1.
\<close>

theorem active_numbers_need_not_start_at_one:
  "reachable 0 first_cancelled
   \<and> active_queue_numbers first_cancelled 1 10 = [2]
   \<and> 1 \<notin> set (active_queue_numbers first_cancelled 1 10)"
  using reachable_first_cancelled
  by (simp add: active_queue_numbers_def first_cancelled_def clinic_def stored_def local_date_def)

text \<open>
  C4 (amended). In every reachable state, for every doctor and day, the queue numbers of
  the active appointments are pairwise distinct; and numbering starts at 1 in the sense
  that an appointment created while its doctor and day have no active number gets 1.
\<close>

theorem active_numbers_distinct:
  assumes "reachable tz d"
  shows "distinct (active_queue_numbers d doctor day)
         \<and> (\<forall>now self t d' self'.
               pk self = None \<and> scheduled_time self = Some t \<and>
               active_queue_numbers d (doctor_id self) (local_date tz t) = [] \<and>
               save tz now d self None = Inr (d', self')
               \<longrightarrow> queue_number self' = Some 1)"
proof
  show "distinct (active_queue_numbers d doctor day)"
    using reachable_invariant[OF assms] distinct_active_numbers
    by (simp add: active_queue_numbers_def)
  show "\<forall>now self t d' self'.
               pk self = None \<and> scheduled_time self = Some t \<and>
               active_queue_numbers d (doctor_id self) (local_date tz t) = [] \<and>
               save tz now d self None = Inr (d', self')
               \<longrightarrow> queue_number self' = Some 1"
  proof (intro allI impI, elim conjE)
    fix now self t d' self'
    assume a: "pk self = None" "scheduled_time self = Some t"
      "save tz now d self None = Inr (d', self')"
      and e: "active_queue_numbers d (doctor_id self) (local_date tz t) = []"
    from save_create_result(1)[OF a] e show "queue_number self' = Some 1"
      by (simp add: active_queue_numbers_def aggregate_Max_non_null)
  qed
qed

theorem active_numbers_distinct_witness:
  "reachable 0 first_cancelled \<and> distinct (active_queue_numbers first_cancelled 1 10)
   \<and> all_queue_numbers first_cancelled 1 10 = [1, 2]
   \<and> active_queue_numbers first_cancelled 2 10 = []
   \<and> (\<exists>d' self'. save 0 0 first_cancelled (Appointment 1 2 (Some 896400)) None = Inr (d', self')
          \<and> queue_number self' = Some 1)"
proof -
  let ?a = "Appointment 1 2 (Some 896400)"
  note fact = active_numbers_distinct[OF reachable_first_cancelled, of 1 10]
  have n: "all_queue_numbers first_cancelled 1 10 = [1, 2]"
    by (simp add: all_queue_numbers_def first_cancelled_def clinic_def stored_def local_date_def)
  have e: "active_queue_numbers first_cancelled 2 10 = []"
    by (simp add: active_queue_numbers_def first_cancelled_def clinic_def stored_def local_date_def)
  have "\<exists>d' self'. save 0 0 first_cancelled ?a None = Inr (d', self')"
    by (simp add: eval_defs first_cancelled_def)
  then obtain d' self' where h: "save 0 0 first_cancelled ?a None = Inr (d', self')" by blast
  have p: "pk ?a = None" "scheduled_time ?a = Some 896400"
    "active_queue_numbers first_cancelled (doctor_id ?a) (local_date 0 896400) = []"
    using e by (simp_all add: Appointment_def local_date_def)
  from fact p h have "queue_number self' = Some 1" by blast
  with fact reachable_first_cancelled n e h show ?thesis by blast
qed

subsection \<open>Booking a freed slot\<close>

lemma clean_fields_cases:
  "clean_fields d a = [] \<longleftrightarrow>
     patient_id a \<in> set (patients d) \<and> doctor_id a \<in> set (doctors d) \<and>
     (case queue_number a of None \<Rightarrow> True | Some n \<Rightarrow> n \<le> POSITIVE_INTEGER_MAX) \<and>
     (\<exists>v. iqd_amount a = Some v \<and> 0 \<le> v \<and> v < 10 ^ 15)"
  by (auto simp: clean_fields_def split: option.splits)

lemma next_number_in_range:
  assumes "\<And>m. Some m \<in> set xs \<Longrightarrow> m < POSITIVE_INTEGER_MAX"
  shows "(case aggregate_Max xs of None \<Rightarrow> 0 | Some mx \<Rightarrow> mx) + 1 \<le> POSITIVE_INTEGER_MAX"
proof (cases "aggregate_Max xs")
  case None
  then show ?thesis by (simp add: POSITIVE_INTEGER_MAX_def)
next
  case (Some mx)
  then have ne: "non_null xs \<noteq> []" and mx: "mx = Max (set (non_null xs))"
    by (simp_all add: aggregate_Max_non_null split: if_splits)
  from ne have "Max (set (non_null xs)) \<in> set (non_null xs)" by (intro Max_in) simp_all
  with mx have "Some mx \<in> set xs" by (simp add: set_non_null)
  from assms[OF this] Some show ?thesis by simp
qed

lemma clean_fields_no_time_error: "(''scheduled_time'', m) \<notin> set (clean_fields d a)"
  by (auto simp: clean_fields_def split: option.splits)

lemma Appointment_clean_free_slot:
  assumes "scheduled_time a = Some I"
    and "\<not> (\<exists>r\<in>set (appointments d). doctor_id r = doctor_id a \<and> scheduled_time r = Some I \<and>
               status r \<noteq> CANCELLED)"
  shows "Appointment_clean now d a =
           (if I < now - PAST_MARGIN then [(''scheduled_time'', PastTimeError)] else [])"
  using assms by (auto simp: Appointment_clean_def to_local_aware_def)

lemma new_row_violates_nothing:
  assumes "scheduled_time a = Some I" and "scheduled_day a = Some day"
    and "\<not> (\<exists>r\<in>set rows. doctor_id r = doctor_id a \<and> scheduled_time r = Some I \<and>
               status r \<noteq> CANCELLED)"
    and "queue_number a = Some ((case aggregate_Max (map queue_number
            (filter (\<lambda>r. doctor_id r = doctor_id a \<and> scheduled_day r = Some day \<and>
                          status r \<noteq> CANCELLED) rows)) of None \<Rightarrow> 0 | Some mx \<Rightarrow> mx) + 1)"
  shows "\<not> violates_constraints rows a"
proof
  assume "violates_constraints rows a"
  then obtain r where r: "r \<in> set rows"
    and c: "uq_doctor_time_not_cancelled a r \<or> uq_doctor_day_queue_active a r"
    unfolding violates_constraints_def by blast
  from c show False
  proof
    assume "uq_doctor_time_not_cancelled a r"
    with r assms(1,3) show False by (auto simp: uq_doctor_time_not_cancelled_def)
  next
    assume q: "uq_doctor_day_queue_active a r"
    let ?xs = "map queue_number
            (filter (\<lambda>r. doctor_id r = doctor_id a \<and> scheduled_day r = Some day \<and>
                          status r \<noteq> CANCELLED) rows)"
    from q assms(2) obtain n where n: "queue_number r = Some n" "queue_number a = Some n"
      "doctor_id r = doctor_id a" "scheduled_day r = Some day" "status r \<noteq> CANCELLED"
      by (auto simp: uq_doctor_day_queue_active_def)
    with r have "Some n \<in> set ?xs" by force
    from next_number_above[OF this] n(2) assms(4) show False by simp
  qed
qed

lemma create_on_free_slot:
  assumes "keys_issued d" and "pk B = None" and "scheduled_time B = Some I"
    and "\<not> (\<exists>r\<in>set (appointments d). doctor_id r = doctor_id B \<and> scheduled_time r = Some I \<and>
               status r \<noteq> CANCELLED)"
  shows "save tz now d B None \<noteq> Inl IntegrityError"
    and "save tz now d B None = Inl (ValidationError errs) \<Longrightarrow>
           (''scheduled_time'', SlotTakenError) \<notin> set errs"
    and "now - PAST_MARGIN \<le> I \<Longrightarrow> patient_id B \<in> set (patients d) \<Longrightarrow>
         doctor_id B \<in> set (doctors d) \<Longrightarrow>
         (case iqd_amount B of None \<Rightarrow> True | Some v \<Rightarrow> 0 \<le> v \<and> v < 10 ^ 15) \<Longrightarrow>
         (\<forall>m \<in> set (active_queue_numbers d (doctor_id B) (local_date tz I)).
            m < POSITIVE_INTEGER_MAX) \<Longrightarrow>
         \<exists>d' B'. save tz now d B None = Inr (d', B')"
proof -
  define B3 where "B3 = (if iqd_amount B = None then B\<lparr>scheduled_time := Some I,
        scheduled_day := Some (local_date tz I), iqd_amount := Some 0\<rparr>
      else B\<lparr>scheduled_time := Some I, scheduled_day := Some (local_date tz I)\<rparr>)
      \<lparr>queue_number := Some ((case aggregate_Max (map queue_number
            (filter (\<lambda>r. doctor_id r = doctor_id B \<and> scheduled_day r = Some (local_date tz I) \<and>
                          status r \<noteq> CANCELLED) (appointments d))) of None \<Rightarrow> 0 | Some mx \<Rightarrow> mx) + 1)\<rparr>"
  have f: "pk B3 = None" "scheduled_time B3 = Some I" "scheduled_day B3 = Some (local_date tz I)"
    "doctor_id B3 = doctor_id B" "patient_id B3 = patient_id B"
    "iqd_amount B3 = (case iqd_amount B of None \<Rightarrow> Some 0 | Some v \<Rightarrow> Some v)"
    "queue_number B3 = Some ((case aggregate_Max (map queue_number
            (filter (\<lambda>r. doctor_id r = doctor_id B \<and> scheduled_day r = Some (local_date tz I) \<and>
                          status r \<noteq> CANCELLED) (appointments d))) of None \<Rightarrow> 0 | Some mx \<Rightarrow> mx) + 1)"
    using assms(2) by (auto simp: B3_def split: option.splits)
  have s: "save tz now d B None =
        (if doctor_id B \<notin> set (doctors d) then Inl DoesNotExist
         else case full_clean now d B3 of [] \<Rightarrow> db_insert now d B3
              | e # es \<Rightarrow> Inl (ValidationError (e # es)))"
    using assms(2,3)
    by (simp add: save_def Let_def to_local_aware_def Model_save_def B3_def cong: list.case_cong)
  let ?a = "B3\<lparr>pk := Some (appointment_seq d), created_at := Some now\<rparr>"
  have "\<not> violates_constraints (appointments d) ?a"
    using assms(4) f by (intro new_row_violates_nothing[where I=I and day="local_date tz I"]) simp_all
  moreover have "\<not> (\<exists>r\<in>set (appointments d). pk r = Some (appointment_seq d))"
    using assms(1) unfolding keys_issued_iff by auto
  ultimately have ins: "db_insert now d B3 =
      Inr (d\<lparr>appointments := appointments d @ [?a], appointment_seq := Suc (appointment_seq d)\<rparr>, ?a)"
    using f(1) by (simp add: db_insert_def Let_def)
  have cl: "Appointment_clean now d B3 =
           (if I < now - PAST_MARGIN then [(''scheduled_time'', PastTimeError)] else [])"
    using assms(4) f by (intro Appointment_clean_free_slot) simp_all
  show "save tz now d B None \<noteq> Inl IntegrityError"
    unfolding s ins by (simp split: list.splits)
  show "save tz now d B None = Inl (ValidationError errs) \<Longrightarrow>
           (''scheduled_time'', SlotTakenError) \<notin> set errs"
  proof -
    assume e: "save tz now d B None = Inl (ValidationError errs)"
    have fc: "(''scheduled_time'', SlotTakenError) \<notin> set (full_clean now d B3)"
      using cl clean_fields_no_time_error[of SlotTakenError d B3] by (simp add: full_clean_def)
    have "errs = full_clean now d B3"
    proof (cases "full_clean now d B3")
      case Nil
      with e show ?thesis unfolding s ins by (simp split: if_splits)
    next
      case (Cons x xs)
      with e show ?thesis unfolding s ins by (simp split: if_splits)
    qed
    with fc show ?thesis by simp
  qed
  show "now - PAST_MARGIN \<le> I \<Longrightarrow> patient_id B \<in> set (patients d) \<Longrightarrow>
         doctor_id B \<in> set (doctors d) \<Longrightarrow>
         (case iqd_amount B of None \<Rightarrow> True | Some v \<Rightarrow> 0 \<le> v \<and> v < 10 ^ 15) \<Longrightarrow>
         (\<forall>m \<in> set (active_queue_numbers d (doctor_id B) (local_date tz I)).
            m < POSITIVE_INTEGER_MAX) \<Longrightarrow>
         \<exists>d' B'. save tz now d B None = Inr (d', B')"
  proof -
    assume a: "now - PAST_MARGIN \<le> I" "patient_id B \<in> set (patients d)"
      "doctor_id B \<in> set (doctors d)"
      "(case iqd_amount B of None \<Rightarrow> True | Some v \<Rightarrow> 0 \<le> v \<and> v < 10 ^ 15)"
      "\<forall>m \<in> set (active_queue_numbers d (doctor_id B) (local_date tz I)).
         m < POSITIVE_INTEGER_MAX"
    have "(case aggregate_Max (map queue_number
            (filter (\<lambda>r. doctor_id r = doctor_id B \<and> scheduled_day r = Some (local_date tz I) \<and>
                          status r \<noteq> CANCELLED) (appointments d))) of None \<Rightarrow> 0 | Some mx \<Rightarrow> mx) + 1
          \<le> POSITIVE_INTEGER_MAX"
      using a(5) by (intro next_number_in_range) (simp add: active_queue_numbers_def set_non_null)
    then have "clean_fields d B3 = []"
      unfolding clean_fields_cases using a(1-4) f by (auto split: option.splits)
    with cl a(1) have "full_clean now d B3 = []" by (simp add: full_clean_def)
    with s ins a(3) show ?thesis by simp
  qed
qed


lemma find_append_found:
  "find P xs = Some x \<Longrightarrow> find P (xs @ ys) = Some x"
  by (induction xs) (auto split: if_splits)

text \<open>
  C5. In a reachable state, after a pending appointment of doctor D at instant I has been
  cancelled, creating a new pending appointment for D at I is refused neither by the
  clash check of \<open>Appointment.clean\<close> nor by the store's unique constraints; when the
  instant is not in the past, the new appointment's patient, doctor and amount are
  valid and the active queue numbers of the day are below the largest number the field
  accepts, it is stored with status PENDING, and the cancelled row stays as history.
\<close>

theorem rebook_after_cancel:
  assumes "reachable tz d"
    and "get_object d k = Some A" and "status A = PENDING" and "scheduled_time A = Some I"
    and "cancel_appointment POST post_reason stamp user_display d k = Inr (out, d1)"
    and "pk B = None" and "doctor_id B = doctor_id A" and "scheduled_time B = Some I"
    and "status B = PENDING"
  shows "out = CancelDone
     \<and> (\<exists>A'. get_object d1 k = Some A' \<and> status A' = CANCELLED)
     \<and> save tz now d1 B None \<noteq> Inl IntegrityError
     \<and> (\<forall>errs. save tz now d1 B None = Inl (ValidationError errs) \<longrightarrow>
           (''scheduled_time'', SlotTakenError) \<notin> set errs)
     \<and> (now - PAST_MARGIN \<le> I \<and> patient_id B \<in> set (patients d) \<and>
        doctor_id B \<in> set (doctors d) \<and>
        (case iqd_amount B of None \<Rightarrow> True | Some v \<Rightarrow> 0 \<le> v \<and> v < 10 ^ 15) \<and>
        (\<forall>m \<in> set (active_queue_numbers d1 (doctor_id A) (local_date tz I)).
           m < POSITIVE_INTEGER_MAX) \<longrightarrow>
          (\<exists>d2 B'. save tz now d1 B None = Inr (d2, B') \<and> status B' = PENDING \<and>
             B' \<in> set (appointments d2) \<and> scheduled_time B' = Some I \<and>
             doctor_id B' = doctor_id A \<and>
             (\<exists>A'. get_object d2 k = Some A' \<and> status A' = CANCELLED)))"
proof -
  let ?f = "\<lambda>r. if py_strip post_reason \<noteq> [] then
              r\<lparr>status := CANCELLED, appt_notes := Some
                (dropWhile py_isspace (py_format (appt_notes A) @ [CHR 0x0A]) @
                 ''[Cancelled '' @ stamp @ '' by '' @ user_display @ ''] '' @ py_strip post_reason)\<rparr>
            else r\<lparr>status := CANCELLED\<rparr>"
  have nc: "status A \<noteq> COMPLETED" using assms(3) by simp
  from cancel_appointment_POST[OF assms(2) nc, of post_reason stamp user_display] assms(5)
  have out: "out = CancelDone"
    and d1: "d1 = d\<lparr>appointments := map (\<lambda>r. if pk r = Some k then ?f r else r) (appointments d)\<rparr>"
    by simp_all
  have A: "A \<in> set (appointments d)" "pk A = Some k" using get_object_Some[OF assms(2)] by simp_all
  have g1: "get_object d1 k = Some (?f A)"
    using find_map_upd[of k "appointments d" A ?f] assms(2) A(2)
    by (simp add: get_object_def d1)
  have sA: "status (?f A) = CANCELLED" by simp
  from reachable_invariant[OF assms(1)] have inv: "constraints_hold (appointments d)" by simp
  from reachable_invariant[OF reachable_cancel[OF assms(1,5)]] have k1: "keys_issued d1" by simp
  have free: "\<not> (\<exists>r\<in>set (appointments d1). doctor_id r = doctor_id B \<and> scheduled_time r = Some I \<and>
               status r \<noteq> CANCELLED)"
  proof
    assume "\<exists>r\<in>set (appointments d1). doctor_id r = doctor_id B \<and> scheduled_time r = Some I \<and>
               status r \<noteq> CANCELLED"
    then obtain x where x: "x \<in> set (appointments d)"
      and p: "doctor_id (if pk x = Some k then ?f x else x) = doctor_id B"
        "scheduled_time (if pk x = Some k then ?f x else x) = Some I"
        "status (if pk x = Some k then ?f x else x) \<noteq> CANCELLED"
      unfolding d1 by auto
    from p(3) have nk: "pk x \<noteq> Some k" by (auto split: if_splits)
    with p assms(3,4,7) have "uq_doctor_time_not_cancelled A x"
      by (simp add: uq_doctor_time_not_cancelled_def)
    moreover from nk A(2) have "pk A \<noteq> pk x" by auto
    ultimately show False using inv A(1) x unfolding constraints_hold_def by blast
  qed
  note c = create_on_free_slot[where tz=tz and now=now, OF k1 assms(6,8) free]
  have dp: "doctors d1 = doctors d" "patients d1 = patients d" by (simp_all add: d1)
  have last: "now - PAST_MARGIN \<le> I \<and> patient_id B \<in> set (patients d) \<and>
        doctor_id B \<in> set (doctors d) \<and>
        (case iqd_amount B of None \<Rightarrow> True | Some v \<Rightarrow> 0 \<le> v \<and> v < 10 ^ 15) \<and>
        (\<forall>m \<in> set (active_queue_numbers d1 (doctor_id A) (local_date tz I)).
           m < POSITIVE_INTEGER_MAX) \<longrightarrow>
          (\<exists>d2 B'. save tz now d1 B None = Inr (d2, B') \<and> status B' = PENDING \<and>
             B' \<in> set (appointments d2) \<and> scheduled_time B' = Some I \<and>
             doctor_id B' = doctor_id A \<and>
             (\<exists>A'. get_object d2 k = Some A' \<and> status A' = CANCELLED))"
  proof
    assume v: "now - PAST_MARGIN \<le> I \<and> patient_id B \<in> set (patients d) \<and>
        doctor_id B \<in> set (doctors d) \<and>
        (case iqd_amount B of None \<Rightarrow> True | Some v \<Rightarrow> 0 \<le> v \<and> v < 10 ^ 15) \<and>
        (\<forall>m \<in> set (active_queue_numbers d1 (doctor_id A) (local_date tz I)).
           m < POSITIVE_INTEGER_MAX)"
    with c(3) dp assms(7) obtain d2 B' where h: "save tz now d1 B None = Inr (d2, B')" by auto
    note r = save_create_result[OF assms(6,8) h]
    have "get_object d2 k = Some (?f A)"
      using g1 r(9) find_append_found[of "\<lambda>r. pk r = Some k" "appointments d1" "?f A" "[B']"]
      by (simp add: get_object_def)
    with h r(3,5,7,9) assms(7,9) sA show
      "\<exists>d2 B'. save tz now d1 B None = Inr (d2, B') \<and> status B' = PENDING \<and>
             B' \<in> set (appointments d2) \<and> scheduled_time B' = Some I \<and>
             doctor_id B' = doctor_id A \<and>
             (\<exists>A'. get_object d2 k = Some A' \<and> status A' = CANCELLED)"
      by auto
  qed
  from out g1 sA c(1) c(2) last show ?thesis by blast
qed

theorem rebook_after_cancel_witness:
  "reachable 0 booked
   \<and> get_object booked 1 = Some (stored 1 1 (Some 896400) (Some 1) PENDING)
   \<and> cancel_appointment POST [] [] [] booked 1 = Inr (CancelDone, freed)
   \<and> (\<exists>d2 B'. save 0 0 freed (Appointment 2 1 (Some 896400)) None = Inr (d2, B')
         \<and> status B' = PENDING \<and> B' \<in> set (appointments d2)
         \<and> (\<exists>A'. get_object d2 1 = Some A' \<and> status A' = CANCELLED))"
proof -
  let ?A = "stored 1 1 (Some 896400) (Some 1) PENDING"
  let ?B = "Appointment 2 1 (Some 896400)"
  have 0: "reachable 0 clinic" by (rule reachable_init) (simp add: clinic_def)
  have 1: "save 0 0 clinic (Appointment 1 1 (Some 896400)) None = Inr (booked, ?A)"
    by (simp add: eval_defs booked_def)
  have "pk (Appointment 1 1 (Some 896400)) = None" by (simp add: Appointment_def)
  from reachable_create[OF 0 this 1] have r: "reachable 0 booked" .
  have g: "get_object booked 1 = Some ?A" by (simp add: eval_defs booked_def)
  have c: "cancel_appointment POST [] [] [] booked 1 = Inr (CancelDone, freed)"
    by (simp add: eval_defs booked_def freed_def cancel_appointment_def py_strip_def)
  have a: "status ?A = PENDING" "scheduled_time ?A = Some 896400"
    by (simp_all add: stored_def)
  have b: "pk ?B = None" "doctor_id ?B = doctor_id ?A" "scheduled_time ?B = Some 896400"
    "status ?B = PENDING"
    by (simp_all add: Appointment_def stored_def)
  have v: "0 - PAST_MARGIN \<le> 896400 \<and> patient_id ?B \<in> set (patients booked) \<and>
        doctor_id ?B \<in> set (doctors booked) \<and>
        (case iqd_amount ?B of None \<Rightarrow> True | Some v \<Rightarrow> 0 \<le> v \<and> v < 10 ^ 15) \<and>
        (\<forall>m \<in> set (active_queue_numbers freed (doctor_id ?A) (local_date 0 896400)).
           m < POSITIVE_INTEGER_MAX)"
    by (simp add: Appointment_def booked_def freed_def clinic_def PAST_MARGIN_def stored_def
          active_queue_numbers_def local_date_def)
  from rebook_after_cancel[OF r g a c b, of 0] v
  have "\<exists>d2 B'. save 0 0 freed ?B None = Inr (d2, B') \<and> status B' = PENDING \<and>
             B' \<in> set (appointments d2) \<and>
             (\<exists>A'. get_object d2 1 = Some A' \<and> status A' = CANCELLED)"
    by blast
  with r g c show ?thesis by simp
qed

subsection \<open>Calling the next patient\<close>







subsection \<open>Terminal statuses\<close>

lemma cancel_keeps_terminal:
  assumes "get_object d k = Some r" and "status r = CANCELLED \<or> status r = COMPLETED"
    and "cancel_appointment meth post_reason stamp user_display d j = Inr (out, d')"
  shows "\<exists>r'. get_object d' k = Some r' \<and> status r' = status r"
proof -
  let ?f = "\<lambda>x. if py_strip post_reason \<noteq> []
              then x\<lparr>status := CANCELLED, appt_notes := Some
                (py_strip (py_format (appt_notes (the (get_object d j))) @ [CHR 0x0A] @
                   (''[Cancelled '' @ stamp @ '' by '' @ user_display @ ''] '' @ py_strip post_reason)))\<rparr>
              else x\<lparr>status := CANCELLED\<rparr>"
  from assms(3) obtain appt where a: "get_object d j = Some appt"
    by (cases "get_object d j") (simp_all add: cancel_appointment_def)
  from assms(3) a have c:
    "d' = d \<or> (status appt \<noteq> COMPLETED \<and>
       d' = d\<lparr>appointments := map (\<lambda>x. if pk x = Some j then ?f x else x) (appointments d)\<rparr>)"
    by (auto simp: cancel_appointment_def Let_def split: if_splits)
  show ?thesis
  proof (cases "d' = d")
    case True
    with assms(1) show ?thesis by simp
  next
    case False
    with c have nc: "status appt \<noteq> COMPLETED"
      and e: "d' = d\<lparr>appointments := map (\<lambda>x. if pk x = Some j then ?f x else x) (appointments d)\<rparr>"
      by simp_all
    show ?thesis
    proof (cases "j = k")
      case True
      with a assms(1) have "appt = r" by simp
      with nc assms(2) have s: "status r = CANCELLED" by simp
      have "pk (?f r) = Some k" using get_object_Some[OF assms(1)] by simp
      from find_map_upd[of k "appointments d" r ?f, OF _ this] assms(1) True e
      have "get_object d' k = Some (?f r)" by (simp add: get_object_def)
      moreover have "status (?f r) = CANCELLED" by simp
      ultimately show ?thesis using s by simp
    next
      case False
      have p: "\<And>x. pk (?f x) = pk x" by simp
      from find_map_upd_other[of k j ?f "appointments d"] False p e
      have "get_object d' k = get_object d k" by (simp add: get_object_def)
      with assms(1) show ?thesis by simp
    qed
  qed
qed

lemma confirm_keeps_cancelled:
  assumes "get_object d k = Some r" and "status r = CANCELLED"
    and "confirm_appointment tz now d j = Inr (out, d')"
  shows "\<exists>r'. get_object d' k = Some r' \<and> status r' = CANCELLED"
proof -
  from assms(3) obtain appt where a: "get_object d j = Some appt"
    by (cases "get_object d j") (simp_all add: confirm_appointment_def)
  show ?thesis
  proof (cases "status appt = CANCELLED")
    case True
    with assms(3) a have "d' = d" by (simp add: confirm_appointment_def)
    with assms(1,2) show ?thesis by simp
  next
    case False
    with a assms(1,2) have jk: "j \<noteq> k" by auto
    from False assms(3) a obtain a' where
      s: "save tz now d (appt\<lparr>status := PENDING\<rparr>) (Some [''status'']) = Inr (d', a')"
      by (auto simp: confirm_appointment_def split: sum.splits)
    have pj: "pk (appt\<lparr>status := PENDING\<rparr>) = Some j" using get_object_Some[OF a] by simp
    from save_update_result[OF pj a s] obtain r' where r': "pk r' = Some j"
      "appointments d' = map (\<lambda>x. if pk x = Some j then r' else x) (appointments d)"
      by blast
    from find_map_other[of k j r' "appointments d"] jk r'
    have "get_object d' k = get_object d k" by (simp add: get_object_def)
    with assms(1,2) show ?thesis by simp
  qed
qed

lemma call_next_keeps_terminal:
  assumes "reachable tz d" and "get_object d k = Some r"
    and "status r = CANCELLED \<or> status r = COMPLETED"
    and "call_next_api tz now d doctor appt_id = Inr (out, d')"
  shows "\<exists>r'. get_object d' k = Some r' \<and> status r' = status r"
proof (cases "d' = d")
  case True
  with assms(2) show ?thesis by simp
next
  case False
  with call_next_api_cases[OF assms(4)] obtain n n' where n: "n \<in> set (appointments d)"
    "status n = PENDING"
    and s: "save tz now d (n\<lparr>status := COMPLETED\<rparr>) (Some [''status'']) = Inr (d', n')"
    by auto
  from reachable_invariant[OF assms(1)] have inv: "distinct (map pk (appointments d))"
    "keys_issued d" by (simp_all add: constraints_hold_def)
  from inv(2) n(1) obtain j where j: "pk n = Some j" unfolding keys_issued_iff by blast
  from get_object_distinct[OF inv(1) n(1) j] have g: "get_object d j = Some n" .
  from g assms(2,3) n(2) have jk: "j \<noteq> k" by auto
  have pj: "pk (n\<lparr>status := COMPLETED\<rparr>) = Some j" using j by simp
  from save_update_result[OF pj g s] obtain r' where r': "pk r' = Some j"
    "appointments d' = map (\<lambda>x. if pk x = Some j then r' else x) (appointments d)"
    by blast
  from find_map_other[of k j r' "appointments d"] jk r'
  have "get_object d' k = get_object d k" by (simp add: get_object_def)
  with assms(2) show ?thesis by simp
qed


lemma save_past_fails:
  assumes "pk self \<noteq> None" and "scheduled_time self = Some t" and "t < now - PAST_MARGIN"
  shows "\<exists>errs. save tz now d self uf = Inl (ValidationError errs)
           \<and> (''scheduled_time'', PastTimeError) \<in> set errs"
proof -
  define S where "S = (if iqd_amount self = None
      then self\<lparr>scheduled_time := Some t, scheduled_day := Some (local_date tz t),
                 iqd_amount := Some 0\<rparr>
      else self\<lparr>scheduled_time := Some t, scheduled_day := Some (local_date tz t)\<rparr>)"
  from assms(1) obtain k where k: "pk self = Some k" by auto
  have st: "scheduled_time S = Some t" by (simp add: S_def)
  have s: "save tz now d self uf =
        (case full_clean now d S of [] \<Rightarrow> Model_save now d S uf
         | e # es \<Rightarrow> Inl (ValidationError (e # es)))"
    using k assms(2)
    by (simp add: save_def Let_def to_local_aware_def S_def cong: list.case_cong)
  have "Appointment_clean now d S = [(''scheduled_time'', PastTimeError)]"
    using st assms(3) by (simp add: Appointment_clean_def to_local_aware_def)
  then have m: "(''scheduled_time'', PastTimeError) \<in> set (full_clean now d S)"
    by (simp add: full_clean_def)
  then obtain e es where c: "full_clean now d S = e # es" by (cases "full_clean now d S") auto
  with s have "save tz now d self uf = Inl (ValidationError (full_clean now d S))" by simp
  with m show ?thesis by blast
qed

lemma confirm_refused_cancelled:
  assumes "get_object d k = Some r" and "status r = CANCELLED"
  shows "confirm_appointment tz now d k = Inr (ConfirmRefusedCancelled, d)"
  using assms by (simp add: confirm_appointment_def)

lemma confirm_leaves_pending:
  assumes "get_object d k = Some r" and "status r \<noteq> CANCELLED"
    and "confirm_appointment tz now d k = Inr (out, d')"
  shows "out = Confirmed \<and> (\<exists>r'. get_object d' k = Some r' \<and> status r' = PENDING)"
proof -
  from assms obtain a' where o: "out = Confirmed"
    and s: "save tz now d (r\<lparr>status := PENDING\<rparr>) (Some [''status'']) = Inr (d', a')"
    by (auto simp: confirm_appointment_def split: sum.splits)
  have pk: "pk (r\<lparr>status := PENDING\<rparr>) = Some k" using get_object_Some[OF assms(1)] by simp
  from save_update_result[OF pk assms(1) s] obtain r' where
    g: "get_object d' k = Some r'"
    and r': "r' = (case Some [''status''] of None \<Rightarrow> a'
                   | Some fs \<Rightarrow> fold (\<lambda>f. copy_column f a') fs r)"
    and sa: "status a' = status (r\<lparr>status := PENDING\<rparr>)"
    by blast
  from r' sa have "status r' = PENDING" by (simp add: copy_column_def)
  with o g show ?thesis by simp
qed

lemma confirm_past_fails:
  assumes "get_object d k = Some r" and "status r \<noteq> CANCELLED"
    and "scheduled_time r = Some t" and "t < now - PAST_MARGIN"
  shows "\<exists>errs. confirm_appointment tz now d k = Inl (ValidationError errs)
           \<and> (''scheduled_time'', PastTimeError) \<in> set errs"
proof -
  have "pk (r\<lparr>status := PENDING\<rparr>) \<noteq> None" using get_object_Some[OF assms(1)] by simp
  moreover have "scheduled_time (r\<lparr>status := PENDING\<rparr>) = Some t" using assms(3) by simp
  ultimately obtain errs where
    "save tz now d (r\<lparr>status := PENDING\<rparr>) (Some [''status'']) = Inl (ValidationError errs)"
    "(''scheduled_time'', PastTimeError) \<in> set errs"
    using save_past_fails[OF _ _ assms(4)] by blast
  with assms(1,2) show ?thesis by (simp add: confirm_appointment_def)
qed

lemma reachable_completed_first: "reachable 0 completed_first"
proof -
  let ?p = "stored 1 1 (Some 896400) (Some 1) PENDING"
  let ?c = "stored 1 1 (Some 896400) (Some 1) COMPLETED"
  have 0: "reachable 0 clinic" by (rule reachable_init) (simp add: clinic_def)
  have 1: "save 0 0 clinic (Appointment 1 1 (Some 896400)) None = Inr (booked, ?p)"
    by (simp add: eval_defs booked_def)
  have "pk (Appointment 1 1 (Some 896400)) = None" by (simp add: Appointment_def)
  from reachable_create[OF 0 this 1] have r: "reachable 0 booked" .
  have b: "base_qs 0 896400 booked 1 = [?p]"
    by (simp add: base_qs_def order_by_scheduled_time_def booked_def clinic_def stored_def
          local_date_def)
  have s1: "save 0 896400 booked (?p\<lparr>status := COMPLETED\<rparr>) (Some [''status''])
              = Inr (completed_first, ?c)"
    by (simp add: eval_defs booked_def completed_first_def)
  have "call_next_api 0 896400 booked 1 None = Inr (Updated ?c, completed_first)"
    using b s1 by (simp add: call_next_api_def first_def)
  from reachable_call_next[OF r this] show ?thesis .
qed

text \<open>
  C2 (as stated, refuted). Three operations that move an appointment out of a terminal
  status. On day 10 at 09:00 the call for the next patient completes doctor 1's
  appointment; confirming it then sets it back to PENDING. The admin action
  \<open>mark_cancelled\<close> turns the completed appointment into a cancelled one. And editing
  the cancelled appointment of \<open>freed\<close> with status "pending" (the staff form carries the
  status field and accepts the time and the doctor) saves it as PENDING.
\<close>

theorem confirm_reopens_completed:
  "call_next_api 0 896400 booked 1 None
     = Inr (Updated (stored 1 1 (Some 896400) (Some 1) COMPLETED), completed_first)
   \<and> get_object completed_first 1 = Some (stored 1 1 (Some 896400) (Some 1) COMPLETED)
   \<and> confirm_appointment 0 896400 completed_first 1 = Inr (Confirmed, booked)
   \<and> get_object booked 1 = Some (stored 1 1 (Some 896400) (Some 1) PENDING)
   \<and> mark_cancelled completed_first [1] = freed
   \<and> get_object freed 1 = Some (stored 1 1 (Some 896400) (Some 1) CANCELLED)
   \<and> clean_scheduled_time 0 (Some 896400) = Inr (Some 896400)
   \<and> AppointmentForm_clean freed (Some 1)
        \<lparr>cd_doctor = Some 1, cd_scheduled_time = Some 896400, cd_iqd_amount = Some 0\<rparr>
       = Inr \<lparr>cd_doctor = Some 1, cd_scheduled_time = Some 896400, cd_iqd_amount = Some 0\<rparr>
   \<and> save 0 0 freed ((stored 1 1 (Some 896400) (Some 1) CANCELLED)\<lparr>status := PENDING\<rparr>) None
       = Inr (booked, stored 1 1 (Some 896400) (Some 1) PENDING)"
proof -
  let ?p = "stored 1 1 (Some 896400) (Some 1) PENDING"
  let ?c = "stored 1 1 (Some 896400) (Some 1) COMPLETED"
  let ?x = "stored 1 1 (Some 896400) (Some 1) CANCELLED"
  have b: "base_qs 0 896400 booked 1 = [?p]"
    by (simp add: base_qs_def order_by_scheduled_time_def booked_def clinic_def stored_def
          local_date_def)
  have s1: "save 0 896400 booked (?p\<lparr>status := COMPLETED\<rparr>) (Some [''status''])
              = Inr (completed_first, ?c)"
    by (simp add: eval_defs booked_def completed_first_def)
  have 1: "call_next_api 0 896400 booked 1 None = Inr (Updated ?c, completed_first)"
    using b s1 by (simp add: call_next_api_def first_def)
  have 2: "get_object completed_first 1 = Some ?c"
    by (simp add: get_object_def completed_first_def clinic_def stored_def)
  have s2: "save 0 896400 completed_first (?c\<lparr>status := PENDING\<rparr>) (Some [''status''])
              = Inr (booked, ?p)"
    by (simp add: eval_defs booked_def completed_first_def)
  have st: "status ?c \<noteq> CANCELLED" by (simp add: stored_def)
  have 3: "confirm_appointment 0 896400 completed_first 1 = Inr (Confirmed, booked)"
    using 2 s2 st by (simp add: confirm_appointment_def)
  have 4: "get_object booked 1 = Some ?p"
    by (simp add: get_object_def booked_def clinic_def stored_def)
  have 5: "mark_cancelled completed_first [1] = freed"
    by (simp add: mark_cancelled_def completed_first_def freed_def clinic_def stored_def)
  have 6: "get_object freed 1 = Some ?x"
    by (simp add: get_object_def freed_def clinic_def stored_def)
  have 7: "clean_scheduled_time 0 (Some 896400) = Inr (Some 896400)"
    by (simp add: clean_scheduled_time_def to_local_aware_def PAST_MARGIN_def)
  have 8: "AppointmentForm_clean freed (Some 1)
        \<lparr>cd_doctor = Some 1, cd_scheduled_time = Some 896400, cd_iqd_amount = Some 0\<rparr>
       = Inr \<lparr>cd_doctor = Some 1, cd_scheduled_time = Some 896400, cd_iqd_amount = Some 0\<rparr>"
    by (simp add: AppointmentForm_clean_def to_local_aware_def freed_def clinic_def stored_def)
  have 9: "save 0 0 freed (?x\<lparr>status := PENDING\<rparr>) None = Inr (booked, ?p)"
    by (simp add: eval_defs booked_def freed_def)
  from 1 2 3 4 5 6 7 8 9 show ?thesis by simp
qed

text \<open>
  C2 (amended). In a reachable state: cancelling any appointment and calling the next
  patient leave a CANCELLED appointment CANCELLED and a COMPLETED one COMPLETED;
  confirming any appointment leaves a CANCELLED appointment CANCELLED, and confirming a
  CANCELLED appointment is refused and changes nothing. Confirming an appointment that is
  not cancelled, when it succeeds, leaves that appointment PENDING (a COMPLETED one is
  reopened); and it fails with the past-time validation error when the appointment is
  scheduled before \<open>now - PAST_MARGIN\<close>.
\<close>

theorem terminal_statuses_kept:
  assumes "reachable tz d" and "get_object d k = Some r"
  shows "(status r = CANCELLED \<or> status r = COMPLETED \<longrightarrow>
            (\<forall>meth post_reason stamp user_display j out d'.
               cancel_appointment meth post_reason stamp user_display d j = Inr (out, d') \<longrightarrow>
               (\<exists>r'. get_object d' k = Some r' \<and> status r' = status r)))
       \<and> (status r = CANCELLED \<or> status r = COMPLETED \<longrightarrow>
            (\<forall>now doctor appt_id out d'.
               call_next_api tz now d doctor appt_id = Inr (out, d') \<longrightarrow>
               (\<exists>r'. get_object d' k = Some r' \<and> status r' = status r)))
       \<and> (status r = CANCELLED \<longrightarrow>
            (\<forall>now j out d'.
               confirm_appointment tz now d j = Inr (out, d') \<longrightarrow>
               (\<exists>r'. get_object d' k = Some r' \<and> status r' = CANCELLED)))
       \<and> (status r = CANCELLED \<longrightarrow>
            (\<forall>now. confirm_appointment tz now d k = Inr (ConfirmRefusedCancelled, d)))
       \<and> (status r \<noteq> CANCELLED \<longrightarrow>
            (\<forall>now out d'.
               confirm_appointment tz now d k = Inr (out, d') \<longrightarrow>
               out = Confirmed \<and> (\<exists>r'. get_object d' k = Some r' \<and> status r' = PENDING)))
       \<and> (status r \<noteq> CANCELLED \<longrightarrow>
            (\<forall>now t. scheduled_time r = Some t \<and> t < now - PAST_MARGIN \<longrightarrow>
               (\<exists>errs. confirm_appointment tz now d k = Inl (ValidationError errs) \<and>
                  (''scheduled_time'', PastTimeError) \<in> set errs)))"
proof (intro conjI impI allI)
  fix meth post_reason stamp user_display j out d'
  assume "status r = CANCELLED \<or> status r = COMPLETED"
    and "cancel_appointment meth post_reason stamp user_display d j = Inr (out, d')"
  then show "\<exists>r'. get_object d' k = Some r' \<and> status r' = status r"
    by (rule cancel_keeps_terminal[OF assms(2)])
next
  fix now doctor appt_id out d'
  assume "status r = CANCELLED \<or> status r = COMPLETED"
    and "call_next_api tz now d doctor appt_id = Inr (out, d')"
  then show "\<exists>r'. get_object d' k = Some r' \<and> status r' = status r"
    by (rule call_next_keeps_terminal[OF assms])
next
  fix now j out d'
  assume "status r = CANCELLED" and "confirm_appointment tz now d j = Inr (out, d')"
  then show "\<exists>r'. get_object d' k = Some r' \<and> status r' = CANCELLED"
    by (rule confirm_keeps_cancelled[OF assms(2)])
next
  fix now
  assume "status r = CANCELLED"
  then show "confirm_appointment tz now d k = Inr (ConfirmRefusedCancelled, d)"
    by (rule confirm_refused_cancelled[OF assms(2)])
next
  fix now out d'
  assume "status r \<noteq> CANCELLED" and "confirm_appointment tz now d k = Inr (out, d')"
  then show "out = Confirmed" "\<exists>r'. get_object d' k = Some r' \<and> status r' = PENDING"
    using confirm_leaves_pending[OF assms(2)] by blast+
next
  fix now t
  assume "status r \<noteq> CANCELLED" and "scheduled_time r = Some t \<and> t < now - PAST_MARGIN"
  then show "\<exists>errs. confirm_appointment tz now d k = Inl (ValidationError errs) \<and>
                  (''scheduled_time'', PastTimeError) \<in> set errs"
    using confirm_past_fails[OF assms(2)] by blast
qed

theorem terminal_statuses_kept_witness:
  "reachable 0 first_cancelled
   \<and> get_object first_cancelled 1 = Some (stored 1 1 (Some 896400) (Some 1) CANCELLED)
   \<and> (\<exists>d'. confirm_appointment 0 896400 first_cancelled 2 = Inr (Confirmed, d')
          \<and> (\<exists>r'. get_object d' 1 = Some r' \<and> status r' = CANCELLED))
   \<and> (\<exists>d' n. call_next_api 0 896400 first_cancelled 1 (Some 1) = Inr (Updated n, d')
          \<and> pk n = Some 2
          \<and> (\<exists>r'. get_object d' 1 = Some r' \<and> status r' = CANCELLED))
   \<and> (\<exists>d'. cancel_appointment POST [] [] [] first_cancelled 2 = Inr (CancelDone, d')
          \<and> (\<exists>r'. get_object d' 1 = Some r' \<and> status r' = CANCELLED))
   \<and> confirm_appointment 0 896400 first_cancelled 1
       = Inr (ConfirmRefusedCancelled, first_cancelled)
   \<and> reachable 0 completed_first
   \<and> get_object completed_first 1 = Some (stored 1 1 (Some 896400) (Some 1) COMPLETED)
   \<and> (\<exists>d'. confirm_appointment 0 896400 completed_first 1 = Inr (Confirmed, d')
          \<and> (\<exists>r'. get_object d' 1 = Some r' \<and> status r' = PENDING))
   \<and> (\<exists>errs. confirm_appointment 0 897000 completed_first 1 = Inl (ValidationError errs)
          \<and> (''scheduled_time'', PastTimeError) \<in> set errs)"
proof -
  let ?r = "stored 1 1 (Some 896400) (Some 1) CANCELLED"
  let ?q = "stored 2 1 (Some 898200) (Some 2) PENDING"
  let ?c = "stored 1 1 (Some 896400) (Some 1) COMPLETED"
  have g: "get_object first_cancelled 1 = Some ?r"
    by (simp add: get_object_def first_cancelled_def clinic_def stored_def)
  have st: "status ?r = CANCELLED" by (simp add: stored_def)
  note fact = terminal_statuses_kept[OF reachable_first_cancelled g]
  have g2: "get_object first_cancelled 2 = Some ?q"
    by (simp add: get_object_def first_cancelled_def clinic_def stored_def)
  have sq: "status ?q \<noteq> CANCELLED" "status ?q \<noteq> COMPLETED" by (simp_all add: stored_def)
  have "\<exists>d' a'. save 0 896400 first_cancelled (?q\<lparr>status := PENDING\<rparr>) (Some [''status''])
                  = Inr (d', a')"
    by (simp add: eval_defs first_cancelled_def)
  then obtain d1 where c1: "confirm_appointment 0 896400 first_cancelled 2 = Inr (Confirmed, d1)"
    using g2 sq by (auto simp: confirm_appointment_def)
  from fact c1 st have 1: "\<exists>r'. get_object d1 1 = Some r' \<and> status r' = CANCELLED" by blast
  have b: "base_qs 0 896400 first_cancelled 1 = [?q]"
    by (simp add: base_qs_def order_by_scheduled_time_def first_cancelled_def clinic_def stored_def
          local_date_def)
  have f: "first (filter (\<lambda>r. pk r = Some 1 \<and> doctor_id r = 1) (appointments first_cancelled))
             = Some ?r"
    by (simp add: first_def first_cancelled_def clinic_def stored_def)
  have "\<exists>d' n. save 0 896400 first_cancelled (?q\<lparr>status := COMPLETED\<rparr>) (Some [''status''])
                  = Inr (d', n) \<and> pk n = Some 2"
    by (simp add: eval_defs first_cancelled_def)
  then obtain d2 n where c2: "call_next_api 0 896400 first_cancelled 1 (Some 1) = Inr (Updated n, d2)"
    and pn: "pk n = Some 2"
    using b f st by (auto simp: call_next_api_def first_def Let_def)
  from fact c2 st have 2: "\<exists>r'. get_object d2 1 = Some r' \<and> status r' = CANCELLED" by metis
  obtain d3 where c3: "cancel_appointment POST [] [] [] first_cancelled 2 = Inr (CancelDone, d3)"
    using g2 sq by (simp add: cancel_appointment_def py_strip_def)
  from fact c3 st have 3: "\<exists>r'. get_object d3 1 = Some r' \<and> status r' = CANCELLED" by metis
  from fact st have 4: "confirm_appointment 0 896400 first_cancelled 1
       = Inr (ConfirmRefusedCancelled, first_cancelled)" by blast
  have gc: "get_object completed_first 1 = Some ?c"
    by (simp add: get_object_def completed_first_def clinic_def stored_def)
  have sc: "status ?c \<noteq> CANCELLED" by (simp add: stored_def)
  have tc: "scheduled_time ?c = Some 896400 \<and> (896400::int) < 897000 - PAST_MARGIN"
    by (simp add: stored_def PAST_MARGIN_def)
  note fact2 = terminal_statuses_kept[OF reachable_completed_first gc]
  have "\<exists>d' a'. save 0 896400 completed_first (?c\<lparr>status := PENDING\<rparr>) (Some [''status''])
                  = Inr (d', a')"
    by (simp add: eval_defs completed_first_def)
  then obtain d4 out where c4: "confirm_appointment 0 896400 completed_first 1 = Inr (out, d4)"
    using gc sc by (auto simp: confirm_appointment_def)
  from fact2 sc c4 have 5: "out = Confirmed"
    and 6: "\<exists>r'. get_object d4 1 = Some r' \<and> status r' = PENDING" by blast+
  from fact2 sc tc have 7: "\<exists>errs. confirm_appointment 0 897000 completed_first 1
          = Inl (ValidationError errs) \<and> (''scheduled_time'', PastTimeError) \<in> set errs"
    by blast
  from c4 5 6 have 8: "\<exists>d'. confirm_appointment 0 896400 completed_first 1 = Inr (Confirmed, d')
          \<and> (\<exists>r'. get_object d' 1 = Some r' \<and> status r' = PENDING)" by blast
  have A: "reachable 0 first_cancelled
   \<and> get_object first_cancelled 1 = Some ?r
   \<and> (\<exists>d'. confirm_appointment 0 896400 first_cancelled 2 = Inr (Confirmed, d')
          \<and> (\<exists>r'. get_object d' 1 = Some r' \<and> status r' = CANCELLED))
   \<and> (\<exists>d' n. call_next_api 0 896400 first_cancelled 1 (Some 1) = Inr (Updated n, d')
          \<and> pk n = Some 2
          \<and> (\<exists>r'. get_object d' 1 = Some r' \<and> status r' = CANCELLED))
   \<and> (\<exists>d'. cancel_appointment POST [] [] [] first_cancelled 2 = Inr (CancelDone, d')
          \<and> (\<exists>r'. get_object d' 1 = Some r' \<and> status r' = CANCELLED))"
    using reachable_first_cancelled g c1 1 c2 pn 2 c3 3 by blast
  from A 4 reachable_completed_first gc 8 7 show ?thesis by simp
qed

subsection \<open>Completion is validated\<close>

text \<open>
  Completing goes through the validation of \<open>save\<close>: ten minutes after 09:00 the call for
  doctor 1's 09:00 appointment raises the past-time error and completes nothing.
\<close>

lemma call_next_past_appointment_fails:
  "call_next_api 0 897000 booked 1 None = Inl (ValidationError [(''scheduled_time'', PastTimeError)])"
proof -
  let ?p = "stored 1 1 (Some 896400) (Some 1) PENDING"
  have b: "base_qs 0 897000 booked 1 = [?p]"
    by (simp add: base_qs_def order_by_scheduled_time_def booked_def clinic_def stored_def
          local_date_def)
  have s: "save 0 897000 booked (?p\<lparr>status := COMPLETED\<rparr>) (Some [''status''])
             = Inl (ValidationError [(''scheduled_time'', PastTimeError)])"
    by (simp add: eval_defs booked_def)
  show ?thesis using b s by (simp add: call_next_api_def first_def)
qed

end
